theory Spec2Isabelle
  imports Complex_Main "HOL-Library.AList"
begin

section \<open>Values, dictionaries and exceptions\<close>

text \<open>
  The workflow records of the tracker are Python dictionaries from field names to
  dynamically typed values. The value kinds below are the ones the collectors and
  the storage layer produce. A Python \<open>float\<close> is modelled as a real number: the
  arithmetic between floats is exact here, the rounding of IEEE doubles, infinities
  and NaN are not represented. A \<open>datetime\<close> is a natural number of clock ticks.
\<close>

datatype pyval =
    PInt int
  | PFloat real
  | PStr string
  | PTime nat
  | PNone
  | PList "pyval list"

type_synonym workflow = "string \<rightharpoonup> pyval"

datatype exn =
    KeyError string
  | TypeError
  | OverflowError
  | UnboundLocalError string
  | PyMongoError
  | AdapterError string

text \<open>\<open>d.get(k, default)\<close> and \<open>d[k]\<close>.\<close>

definition py_get :: "workflow \<Rightarrow> string \<Rightarrow> pyval \<Rightarrow> pyval" where
  "py_get d k dflt = (case d k of None \<Rightarrow> dflt | Some v \<Rightarrow> v)"

definition getitem :: "workflow \<Rightarrow> string \<Rightarrow> exn + pyval" where
  "getitem d k = (case d k of None \<Rightarrow> Inl (KeyError k) | Some v \<Rightarrow> Inr v)"

text \<open>
  Python's arithmetic on these values, as far as the scorer uses it. An integer that
  meets a float is converted to a float first; the conversion raises \<open>OverflowError\<close>
  when the integer, rounded to the nearest double, is beyond the largest one, that is
  from \<open>2^1024 - 2^970\<close> on. Sequences can be repeated and concatenated; every other
  combination raises \<open>TypeError\<close>. Arithmetic between floats never raises.
\<close>

definition result_bind :: "exn + 'a \<Rightarrow> ('a \<Rightarrow> exn + 'b) \<Rightarrow> exn + 'b" where
  "result_bind m f = (case m of Inl e \<Rightarrow> Inl e | Inr x \<Rightarrow> f x)"

definition float_limit :: int where
  "float_limit = 2 ^ 1024 - 2 ^ 970"

definition to_float :: "int \<Rightarrow> exn + real" where
  "to_float i = (if \<bar>i\<bar> < float_limit then Inr (real_of_int i) else Inl OverflowError)"

text \<open>An operand of \<open>*\<close> or \<open>+\<close> whose other operand is a float.\<close>

fun as_float :: "pyval \<Rightarrow> exn + real" where
  "as_float (PInt i) = to_float i"
| "as_float (PFloat r) = Inr r"
| "as_float v = Inl TypeError"

text \<open>\<open>x > 0\<close>.\<close>

fun greater_than_zero :: "pyval \<Rightarrow> exn + bool" where
  "greater_than_zero (PInt i) = Inr (0 < i)"
| "greater_than_zero (PFloat r) = Inr (0 < r)"
| "greater_than_zero v = Inl TypeError"

text \<open>\<open>x * n\<close> for an integer literal \<open>n\<close>, and \<open>x + y\<close>.\<close>

fun times_int :: "pyval \<Rightarrow> int \<Rightarrow> exn + pyval" where
  "times_int (PInt i) n = Inr (PInt (i * n))"
| "times_int (PFloat r) n = Inr (PFloat (r * real_of_int n))"
| "times_int (PStr s) n = Inr (PStr (concat (replicate (nat n) s)))"
| "times_int (PList xs) n = Inr (PList (concat (replicate (nat n) xs)))"
| "times_int v n = Inl TypeError"

fun py_add :: "pyval \<Rightarrow> pyval \<Rightarrow> exn + pyval" where
  "py_add (PInt a) (PInt b) = Inr (PInt (a + b))"
| "py_add (PInt a) (PFloat b) = result_bind (to_float a) (\<lambda>x. Inr (PFloat (x + b)))"
| "py_add (PFloat a) (PInt b) = result_bind (to_float b) (\<lambda>y. Inr (PFloat (a + y)))"
| "py_add (PFloat a) (PFloat b) = Inr (PFloat (a + b))"
| "py_add (PStr a) (PStr b) = Inr (PStr (a @ b))"
| "py_add (PList a) (PList b) = Inr (PList (a @ b))"
| "py_add v v' = Inl TypeError"

section \<open>The engagement scorer\<close>

text \<open>
  The three platform formulas, shared by both copies of the scorer, each in Python's
  order of evaluation.
\<close>

definition youtube_score :: "workflow \<Rightarrow> exn + real" where
  "youtube_score w =
     (let views = py_get w ''views'' (PInt 0);
          likes = py_get w ''likes'' (PInt 0);
          comments = py_get w ''comments'' (PInt 0)
      in result_bind (greater_than_zero views) (\<lambda>positive.
           if positive then
             result_bind (as_float views) (\<lambda>v.
             result_bind (as_float likes) (\<lambda>l.
             result_bind (as_float comments) (\<lambda>c.
               Inr ((v * 0.0001) + (l * 0.4) + (c * 0.2)))))
           else Inr 0.0))"

definition forum_score :: "workflow \<Rightarrow> exn + real" where
  "forum_score w =
     (let views = py_get w ''views'' (PInt 0);
          replies = py_get w ''replies'' (PInt 0);
          likes = py_get w ''likes'' (PInt 0);
          contributors = py_get w ''contributors'' (PInt 0)
      in result_bind (times_int replies 40) (\<lambda>a.
         result_bind (times_int likes 30) (\<lambda>b.
         result_bind (py_add a b) (\<lambda>ab.
         result_bind (times_int contributors 20) (\<lambda>c.
         result_bind (py_add ab c) (\<lambda>abc.
         result_bind (as_float views) (\<lambda>v.
         result_bind (as_float abc) (\<lambda>x.
           Inr (x + (v * 0.01))))))))))"

definition trends_score :: "workflow \<Rightarrow> exn + real" where
  "trends_score w =
     (let search_volume = py_get w ''search_volume'' (PInt 0);
          trend_change = py_get w ''trend_change'' (PInt 0)
      in result_bind (as_float search_volume) (\<lambda>sv.
         result_bind (greater_than_zero trend_change) (\<lambda>positive.
         result_bind (times_int (if positive then trend_change else PInt 0) 300) (\<lambda>momentum.
         result_bind (as_float momentum) (\<lambda>m.
           Inr ((sv * 0.7) + m))))))"

text \<open>\<open>calculate_engagement_score\<close> of \<open>app.py\<close>.\<close>

definition app_calculate_engagement_score :: "workflow \<Rightarrow> exn + real" where
  "app_calculate_engagement_score w =
     (let platform = py_get w ''platform'' (PStr '''')
      in if platform = PStr ''YouTube'' then youtube_score w
         else if platform = PStr ''Forum'' then forum_score w
         else if platform = PStr ''Google Trends'' then trends_score w
         else Inr 0.0)"

text \<open>\<open>calculate_engagement_score\<close> of \<open>scheduler.py\<close>.\<close>

definition sched_calculate_engagement_score :: "workflow \<Rightarrow> exn + real" where
  "sched_calculate_engagement_score w =
     (let platform = py_get w ''platform'' (PStr '''')
      in if platform = PStr ''YouTube'' then youtube_score w
         else if platform = PStr ''Forum'' then forum_score w
         else if platform = PStr ''Google'' then trends_score w
         else Inr 0.0)"

section \<open>The trends adapter's record constructor\<close>

text \<open>
  \<open>get_trends_data\<close> builds its result with every key present, in both of its
  branches; the record below is that dictionary.
\<close>

record trends_data =
  keyword :: string
  country :: string
  trend_score :: int
  trend_change :: real
  search_volume :: int
  related_queries :: "string list"
  timestamp :: string

definition country_codes :: "string \<rightharpoonup> string" where
  "country_codes =
     [''US'' \<mapsto> ''US'', ''GB'' \<mapsto> ''GB'', ''DE'' \<mapsto> ''DE'', ''FR'' \<mapsto> ''FR'',
      ''CA'' \<mapsto> ''CA'', ''AU'' \<mapsto> ''AU'', ''IN'' \<mapsto> ''IN'', ''BR'' \<mapsto> ''BR'',
      ''JP'' \<mapsto> ''JP'', ''Global'' \<mapsto> '''']"

fun replace_spaces :: "string \<Rightarrow> string" where
  "replace_spaces [] = []"
| "replace_spaces (c # cs) =
     (if c = CHR '' '' then ''%20'' @ replace_spaces cs else c # replace_spaces cs)"

definition create_workflow_from_trend :: "trends_data \<Rightarrow> workflow" where
  "create_workflow_from_trend td =
     [''workflow_name'' \<mapsto> PStr (keyword td @ '' automation workflow''),
      ''platform'' \<mapsto> PStr ''Google Trends'',
      ''country'' \<mapsto> PStr (country td),
      ''trend_score'' \<mapsto> PInt (trend_score td),
      ''search_volume'' \<mapsto> PInt (search_volume td),
      ''trend_change'' \<mapsto> PFloat (trend_change td),
      ''related_queries'' \<mapsto> PList (map PStr (related_queries td)),
      ''popularity_index'' \<mapsto> PInt (trend_score td),
      ''source_url'' \<mapsto> PStr (''https://trends.google.com/trends/explore?q=''
          @ replace_spaces (keyword td) @ ''&geo=''
          @ (case country_codes (country td) of None \<Rightarrow> ''US'' | Some c \<Rightarrow> c)),
      ''timestamp'' \<mapsto> PStr (timestamp td)]"

section \<open>Program state, clock and storage\<close>

text \<open>
  One entry of the \<open>collection_history\<close> collection, as \<open>log_collection\<close> builds it.
  The message of an entry or of a \<open>logger.error\<close> call is a literal text followed by
  \<open>str(e)\<close> of an exception; the model keeps the exception itself.
\<close>

datatype message = Msg string "exn option"

record log_entry =
  platform :: string
  workflows_collected :: int
  status :: string
  error_message :: "message option"
  logged_at :: nat

text \<open>
  The two MongoDB collections, the error log, and two counters: how often the clock
  has been read and how many storage calls have been made. The position of a document
  in \<open>workflows_collection\<close> stands for its \<open>_id\<close>: insertion appends, and a document
  never moves.
\<close>

record state =
  workflows_collection :: "workflow list"
  collection_history :: "log_entry list"
  logger :: "message list"
  clock_reads :: nat
  db_calls :: nat

text \<open>
  What the program cannot control: the value of the \<open>n\<close>-th reading of the clock and
  whether the \<open>n\<close>-th storage call raises.
\<close>

record world =
  now_at :: "nat \<Rightarrow> nat"
  db_down :: "nat \<Rightarrow> bool"

type_synonym 'a prog = "state \<Rightarrow> (exn + 'a) \<times> state"

definition py_return :: "'a \<Rightarrow> 'a prog" where
  "py_return x s = (Inr x, s)"

definition py_raise :: "exn \<Rightarrow> 'a prog" where
  "py_raise e s = (Inl e, s)"

definition lift :: "exn + 'a \<Rightarrow> 'a prog" where
  "lift r s = (r, s)"

definition py_bind :: "'a prog \<Rightarrow> ('a \<Rightarrow> 'b prog) \<Rightarrow> 'b prog" where
  "py_bind m f s = (case m s of (Inl e, s') \<Rightarrow> (Inl e, s') | (Inr x, s') \<Rightarrow> f x s')"

text \<open>\<open>try: m except Exception as e: h e\<close>.\<close>

definition py_try :: "'a prog \<Rightarrow> (exn \<Rightarrow> 'a prog) \<Rightarrow> 'a prog" where
  "py_try m h s = (case m s of (Inl e, s') \<Rightarrow> h e s' | (Inr x, s') \<Rightarrow> (Inr x, s'))"

definition utcnow :: "world \<Rightarrow> nat prog" where
  "utcnow W s = (Inr (now_at W (clock_reads s)), s\<lparr>clock_reads := Suc (clock_reads s)\<rparr>)"

definition logger_error :: "message \<Rightarrow> unit prog" where
  "logger_error m s = (Inr (), s\<lparr>logger := logger s @ [m]\<rparr>)"

definition db_call :: "world \<Rightarrow> unit prog" where
  "db_call W s =
     (if db_down W (db_calls s) then Inl PyMongoError else Inr (),
      s\<lparr>db_calls := Suc (db_calls s)\<rparr>)"

text \<open>
  \<open>find_one(query)\<close>: the first document, in insertion order, that holds every field of
  the query with an equal value; \<open>None\<close> when there is none. This is MongoDB's match
  for the string values that identity keys hold (binary comparison, so case matters);
  its special treatment of \<open>null\<close> and of array fields is not represented.
\<close>

definition matches :: "(string \<times> pyval) list \<Rightarrow> workflow \<Rightarrow> bool" where
  "matches q d = list_all (\<lambda>(k, v). d k = Some v) q"

fun find_first :: "('a \<Rightarrow> bool) \<Rightarrow> 'a list \<Rightarrow> (nat \<times> 'a) option" where
  "find_first P [] = None"
| "find_first P (x # xs) =
     (if P x then Some (0, x)
      else case find_first P xs of None \<Rightarrow> None | Some (i, y) \<Rightarrow> Some (Suc i, y))"

definition find_one :: "world \<Rightarrow> (string \<times> pyval) list \<Rightarrow> ((nat \<times> workflow) option) prog" where
  "find_one W q =
     py_bind (db_call W) (\<lambda>_ s. (Inr (find_first (matches q) (workflows_collection s)), s))"

text \<open>\<open>update_one({'_id': i}, {'$set': fields})\<close> and the two \<open>insert_one\<close>.\<close>

definition set_fields :: "nat \<Rightarrow> workflow \<Rightarrow> workflow list \<Rightarrow> workflow list" where
  "set_fields i fs ds = (if i < length ds then ds[i := (ds ! i) ++ fs] else ds)"

definition update_one :: "world \<Rightarrow> nat \<Rightarrow> workflow \<Rightarrow> unit prog" where
  "update_one W i fs =
     py_bind (db_call W) (\<lambda>_ s.
       (Inr (), s\<lparr>workflows_collection := set_fields i fs (workflows_collection s)\<rparr>))"

definition insert_one :: "world \<Rightarrow> workflow \<Rightarrow> unit prog" where
  "insert_one W d =
     py_bind (db_call W) (\<lambda>_ s.
       (Inr (), s\<lparr>workflows_collection := workflows_collection s @ [d]\<rparr>))"

definition history_insert_one :: "world \<Rightarrow> log_entry \<Rightarrow> unit prog" where
  "history_insert_one W e =
     py_bind (db_call W) (\<lambda>_ s.
       (Inr (), s\<lparr>collection_history := collection_history s @ [e]\<rparr>))"

section \<open>The reconciler\<close>

text \<open>\<open>save_workflow\<close> of \<open>app.py\<close>: the body of the \<open>try\<close>, then the handler.\<close>

definition app_save_body :: "world \<Rightarrow> workflow \<Rightarrow> unit prog" where
  "app_save_body W w =
     py_bind (lift (app_calculate_engagement_score w)) (\<lambda>score.
     py_bind (utcnow W) (\<lambda>t.
       let w1 = w(''engagement_score'' \<mapsto> PFloat score, ''last_updated'' \<mapsto> PTime t) in
       py_bind (lift (getitem w1 ''workflow'')) (\<lambda>name.
       py_bind (lift (getitem w1 ''platform'')) (\<lambda>plat.
       py_bind (lift (getitem w1 ''country'')) (\<lambda>ctry.
       py_bind (find_one W [(''workflow'', name), (''platform'', plat), (''country'', ctry)])
         (\<lambda>existing.
            case existing of
              Some (i, d) \<Rightarrow>
                update_one W i (w1(''created_at'' \<mapsto> py_get d ''created_at'' (PTime t)))
            | None \<Rightarrow>
                insert_one W (w1(''created_at'' \<mapsto> PTime t))))))))"

definition app_save_workflow :: "world \<Rightarrow> workflow \<Rightarrow> unit prog" where
  "app_save_workflow W w =
     py_try (app_save_body W w)
       (\<lambda>e. logger_error (Msg ''Error saving workflow: '' (Some e)))"

text \<open>
  \<open>save_workflow\<close> of \<open>scheduler.py\<close>. The fields of its \<open>$set\<close> come first;
  \<open>workflow['engagement_score']\<close> and \<open>workflow['last_updated']\<close> are the two values
  stored in the dictionary just before.
\<close>

definition sched_set_fields :: "workflow \<Rightarrow> real \<Rightarrow> nat \<Rightarrow> workflow" where
  "sched_set_fields w1 score t =
     [''views'' \<mapsto> py_get w1 ''views'' (PInt 0),
      ''likes'' \<mapsto> py_get w1 ''likes'' (PInt 0),
      ''comments'' \<mapsto> py_get w1 ''comments'' (PInt 0),
      ''replies'' \<mapsto> py_get w1 ''replies'' (PInt 0),
      ''contributors'' \<mapsto> py_get w1 ''contributors'' (PInt 0),
      ''search_volume'' \<mapsto> py_get w1 ''search_volume'' (PInt 0),
      ''trend_change'' \<mapsto> py_get w1 ''trend_change'' (PFloat 0.0),
      ''like_to_view_ratio'' \<mapsto> py_get w1 ''like_to_view_ratio'' (PFloat 0.0),
      ''comment_to_view_ratio'' \<mapsto> py_get w1 ''comment_to_view_ratio'' (PFloat 0.0),
      ''engagement_score'' \<mapsto> PFloat score,
      ''source_url'' \<mapsto> py_get w1 ''source_url'' (PStr ''''),
      ''last_updated'' \<mapsto> PTime t]"

definition sched_save_body :: "world \<Rightarrow> workflow \<Rightarrow> unit prog" where
  "sched_save_body W w =
     py_bind (lift (sched_calculate_engagement_score w)) (\<lambda>score.
     py_bind (utcnow W) (\<lambda>t.
       let w1 = w(''engagement_score'' \<mapsto> PFloat score, ''last_updated'' \<mapsto> PTime t) in
       py_bind (lift (getitem w1 ''workflow_name'')) (\<lambda>name.
       py_bind (lift (getitem w1 ''platform'')) (\<lambda>plat.
       py_bind (lift (getitem w1 ''country'')) (\<lambda>ctry.
       py_bind (find_one W [(''workflow_name'', name), (''platform'', plat), (''country'', ctry)])
         (\<lambda>existing.
            case existing of
              Some (i, d) \<Rightarrow> update_one W i (sched_set_fields w1 score t)
            | None \<Rightarrow>
                py_bind (utcnow W) (\<lambda>t2.
                  insert_one W (w1(''created_at'' \<mapsto> PTime t2)))))))))"

definition sched_save_workflow :: "world \<Rightarrow> workflow \<Rightarrow> unit prog" where
  "sched_save_workflow W w =
     py_try (sched_save_body W w)
       (\<lambda>e. logger_error (Msg ''Error saving workflow: '' (Some e)))"

text \<open>\<open>for wf in workflows: save_workflow(wf)\<close>.\<close>

fun save_each :: "(workflow \<Rightarrow> unit prog) \<Rightarrow> workflow list \<Rightarrow> unit prog" where
  "save_each save [] = py_return ()"
| "save_each save (w # ws) = py_bind (save w) (\<lambda>_. save_each save ws)"

section \<open>The video adapter's record constructor\<close>

text \<open>
  The dictionary \<open>get_video_details\<close> builds for one video: title, region, the three
  counters read with \<open>int(...)\<close>, the two ratios and the watch URL.
\<close>

definition youtube_workflow :: "string \<Rightarrow> string \<Rightarrow> int \<Rightarrow> int \<Rightarrow> int \<Rightarrow> string \<Rightarrow> workflow" where
  "youtube_workflow title region n_views n_likes n_comments video_id =
     [''workflow_name'' \<mapsto> PStr (take 200 title),
      ''platform'' \<mapsto> PStr ''YouTube'',
      ''country'' \<mapsto> PStr region,
      ''views'' \<mapsto> PInt n_views,
      ''likes'' \<mapsto> PInt n_likes,
      ''comments'' \<mapsto> PInt n_comments,
      ''like_to_view_ratio'' \<mapsto>
         (if n_views > 0 then PFloat (real_of_int n_likes / real_of_int n_views) else PInt 0),
      ''comment_to_view_ratio'' \<mapsto>
         (if n_views > 0 then PFloat (real_of_int n_comments / real_of_int n_views) else PInt 0),
      ''source_url'' \<mapsto> PStr (''https://www.youtube.com/watch?v='' @ video_id)]"

section \<open>Run logs and the collection of one platform\<close>

definition log_collection :: "world \<Rightarrow> string \<Rightarrow> int \<Rightarrow> string \<Rightarrow> message option \<Rightarrow> unit prog" where
  "log_collection W plat n st err =
     py_try
       (py_bind (utcnow W) (\<lambda>t.
          history_insert_one W
            \<lparr>platform = plat, workflows_collected = n, status = st,
             error_message = err, logged_at = t\<rparr>))
       (\<lambda>e. logger_error (Msg ''Error logging collection: '' (Some e)))"

text \<open>
  The video section of \<open>trigger_collection\<close> in \<open>app.py\<close>. The adapter is a parameter:
  for a region it returns the collected records or raises. The loop variable
  \<open>workflows\<close> is unbound until the first region has been collected, and after the loop
  it holds the records of the last region. The HTTP response that the handler builds
  alongside is not part of the stored state and is left out.
\<close>

fun app_youtube_regions ::
  "world \<Rightarrow> (string \<Rightarrow> exn + workflow list) \<Rightarrow> string list \<Rightarrow> workflow list option
     \<Rightarrow> (workflow list option) prog" where
  "app_youtube_regions W adapter [] bound = py_return bound"
| "app_youtube_regions W adapter (r # rs) bound =
     py_bind (lift (adapter r)) (\<lambda>workflows.
     py_bind (save_each (app_save_workflow W) workflows) (\<lambda>_.
       app_youtube_regions W adapter rs (Some workflows)))"

definition app_collect_youtube ::
  "world \<Rightarrow> (string \<Rightarrow> exn + workflow list) \<Rightarrow> string list \<Rightarrow> unit prog" where
  "app_collect_youtube W adapter regions =
     py_try
       (py_bind (app_youtube_regions W adapter regions None) (\<lambda>bound.
          case bound of
            None \<Rightarrow> py_raise (UnboundLocalError ''workflows'')
          | Some workflows \<Rightarrow>
              log_collection W ''YouTube'' (int (length workflows)) ''success'' None))
       (\<lambda>e. py_bind (logger_error (Msg ''YouTube collection error: '' (Some e))) (\<lambda>_.
              log_collection W ''YouTube'' 0 ''error'' (Some (Msg '''' (Some e)))))"

text \<open>
  \<open>collect_youtube_data\<close> of \<open>scheduler.py\<close>: the API key read from the environment,
  the two fixed regions, and a running total.
\<close>

fun sched_youtube_regions ::
  "world \<Rightarrow> (string \<Rightarrow> exn + workflow list) \<Rightarrow> string list \<Rightarrow> int \<Rightarrow> int prog" where
  "sched_youtube_regions W adapter [] total_count = py_return total_count"
| "sched_youtube_regions W adapter (r # rs) total_count =
     py_bind (lift (adapter r)) (\<lambda>workflows.
     py_bind (save_each (sched_save_workflow W) workflows) (\<lambda>_.
       sched_youtube_regions W adapter rs (total_count + int (length workflows))))"

definition collect_youtube_data ::
  "world \<Rightarrow> string option \<Rightarrow> (string \<Rightarrow> exn + workflow list) \<Rightarrow> unit prog" where
  "collect_youtube_data W api_key adapter =
     (if api_key = None \<or> api_key = Some '''' then
        py_bind (logger_error (Msg ''YOUTUBE_API_KEY not set'' None)) (\<lambda>_.
          log_collection W ''YouTube'' 0 ''error'' (Some (Msg ''API key not set'' None)))
      else
        py_try
          (py_bind (sched_youtube_regions W adapter [''US'', ''IN''] 0) (\<lambda>total_count.
             log_collection W ''YouTube'' total_count ''success'' None))
          (\<lambda>e. py_bind (logger_error (Msg ''YouTube collection failed: '' (Some e))) (\<lambda>_.
                 log_collection W ''YouTube'' 0 ''error'' (Some (Msg '''' (Some e))))))"

section \<open>Deduplication inside the adapters\<close>

text \<open>
  The records an adapter deduplicates carry a string \<open>source_url\<close> and an integer
  \<open>views\<close> by construction; the remaining fields ride along in the record extension.
  The dictionary \<open>unique_workflows\<close> keeps its keys in order of first insertion, and
  \<open>list(unique_workflows.values())\<close> reads the values in that order.
\<close>

record collected =
  source_url :: string
  views :: int

text \<open>\<open>collect_workflows\<close> of \<open>youtube_collector.py\<close>, from \<open>all_workflows\<close> on.\<close>

fun youtube_unique ::
  "'a collected_scheme list \<Rightarrow> (string \<times> 'a collected_scheme) list
     \<Rightarrow> (string \<times> 'a collected_scheme) list" where
  "youtube_unique [] unique_workflows = unique_workflows"
| "youtube_unique (x # xs) unique_workflows =
     (let url = source_url x in
      case map_of unique_workflows url of
        None \<Rightarrow> youtube_unique xs (AList.update url x unique_workflows)
      | Some kept \<Rightarrow>
          if views x > views kept
          then youtube_unique xs (AList.update url x unique_workflows)
          else youtube_unique xs unique_workflows)"

definition youtube_dedup :: "'a collected_scheme list \<Rightarrow> 'a collected_scheme list" where
  "youtube_dedup all_workflows = map snd (youtube_unique all_workflows [])"

text \<open>\<open>collect_workflows\<close> of \<open>forum_collector.py\<close>, from \<open>all_workflows\<close> on.\<close>

fun forum_unique ::
  "'a collected_scheme list \<Rightarrow> (string \<times> 'a collected_scheme) list
     \<Rightarrow> (string \<times> 'a collected_scheme) list" where
  "forum_unique [] unique_workflows = unique_workflows"
| "forum_unique (x # xs) unique_workflows =
     (let url = source_url x in
      if url \<noteq> [] \<and> map_of unique_workflows url = None
      then forum_unique xs (AList.update url x unique_workflows)
      else forum_unique xs unique_workflows)"

definition forum_dedup :: "'a collected_scheme list \<Rightarrow> 'a collected_scheme list" where
  "forum_dedup all_workflows = map snd (forum_unique all_workflows [])"

section \<open>Auxiliary notions for the proofs\<close>

text \<open>
  \<open>created_kept ds ds'\<close>: every document of \<open>ds\<close> is still at its position in \<open>ds'\<close>
  and a \<open>created_at\<close> it had is the one it has.
\<close>

definition created_kept :: "workflow list \<Rightarrow> workflow list \<Rightarrow> bool" where
  "created_kept ds ds' =
     (length ds \<le> length ds'
      \<and> (\<forall>i < length ds. \<forall>c. (ds ! i) ''created_at'' = Some c
             \<longrightarrow> (ds' ! i) ''created_at'' = Some c))"

text \<open>
  The values that the \<open>$set\<close> of \<open>scheduler.py\<close> writes for fields the incoming record
  does not have.
\<close>

definition sched_defaults :: workflow where
  "sched_defaults =
     [''views'' \<mapsto> PInt 0, ''likes'' \<mapsto> PInt 0, ''comments'' \<mapsto> PInt 0,
      ''replies'' \<mapsto> PInt 0, ''contributors'' \<mapsto> PInt 0, ''search_volume'' \<mapsto> PInt 0,
      ''trend_change'' \<mapsto> PFloat 0.0, ''like_to_view_ratio'' \<mapsto> PFloat 0.0,
      ''comment_to_view_ratio'' \<mapsto> PFloat 0.0, ''source_url'' \<mapsto> PStr '''']"

text \<open>The fields that the \<open>$set\<close> of \<open>scheduler.py\<close> writes.\<close>

definition sched_keys :: "string list" where
  "sched_keys = [''views'', ''likes'', ''comments'', ''replies'', ''contributors'',
     ''search_volume'', ''trend_change'', ''like_to_view_ratio'', ''comment_to_view_ratio'',
     ''engagement_score'', ''source_url'', ''last_updated'']"

text \<open>
  The shape of the dictionary \<open>unique_workflows\<close>: no key twice, and every record filed
  under its own URL.
\<close>

definition keyed :: "(string \<times> 'a collected_scheme) list \<Rightarrow> bool" where
  "keyed u = (distinct (map fst u) \<and> list_all (\<lambda>(k, v). source_url v = k) u)"

section \<open>Example inputs\<close>

definition video_1000 :: workflow where
  "video_1000 = [''platform'' \<mapsto> PStr ''YouTube'', ''views'' \<mapsto> PInt 1000,
                 ''likes'' \<mapsto> PInt 50, ''comments'' \<mapsto> PInt 10]"

definition video_unseen :: workflow where
  "video_unseen = [''platform'' \<mapsto> PStr ''YouTube'', ''views'' \<mapsto> PInt 0,
                   ''likes'' \<mapsto> PInt 7, ''comments'' \<mapsto> PStr ''many'']"

definition trend_declining :: workflow where
  "trend_declining = [''platform'' \<mapsto> PStr ''Google Trends'',
                      ''search_volume'' \<mapsto> PInt 1000, ''trend_change'' \<mapsto> PInt (- 5)]"

definition trend_n8n :: trends_data where
  "trend_n8n = \<lparr>keyword = ''n8n automation'', country = ''US'', trend_score = 50,
                trend_change = 10, search_volume = 1000,
                related_queries = [''n8n automation tutorial''], timestamp = ''2025-01-01''\<rparr>"

text \<open>
  A world whose storage never fails and whose clock advances by one tick per reading,
  the empty database, and the record of one video as collected in two regions.
\<close>

definition world0 :: world where
  "world0 = \<lparr>now_at = (\<lambda>n. 100 + n), db_down = (\<lambda>n. False)\<rparr>"

definition state0 :: state where
  "state0 = \<lparr>workflows_collection = [], collection_history = [], logger = [],
              clock_reads = 0, db_calls = 0\<rparr>"

definition video_us :: workflow where
  "video_us = youtube_workflow ''n8n tutorial'' ''US'' 1000 50 10 ''abc''"

definition video_in :: workflow where
  "video_in = youtube_workflow ''n8n tutorial'' ''IN'' 1000 50 10 ''abc''"

text \<open>The database after the scheduler has saved the video once, and twice.\<close>

definition saved_once :: state where
  "saved_once = snd (sched_save_workflow world0 video_us state0)"

definition saved_twice :: state where
  "saved_twice = snd (sched_save_workflow world0 video_us saved_once)"

text \<open>
  A second video of the first region, and an adapter that returns two records for
  \<open>US\<close> and one for \<open>IN\<close>.
\<close>

definition video_us_b :: workflow where
  "video_us_b = youtube_workflow ''n8n webhook'' ''US'' 1000 50 10 ''def''"

definition adapter_2_1 :: "string \<Rightarrow> exn + workflow list" where
  "adapter_2_1 r = (if r = ''US'' then Inr [video_us, video_us_b] else Inr [video_in])"

text \<open>Two collected records of one URL with different view counts.\<close>

definition seen_less :: collected where
  "seen_less = \<lparr>source_url = ''https://community.n8n.io/t/slack-notion-task-sync/15201'',
                 views = 2500\<rparr>"

definition seen_more :: collected where
  "seen_more = \<lparr>source_url = ''https://community.n8n.io/t/slack-notion-task-sync/15201'',
                 views = 3400\<rparr>"

section \<open>Properties of the scorer\<close>

lemma float_limit_bound: "2 ^ 64 \<le> float_limit"
proof -
  have "(2::int) ^ 1024 = 2 ^ 54 * 2 ^ 970"
    by (simp add: power_add [symmetric])
  then have "float_limit = (2 ^ 54 - 1) * 2 ^ 970"
    by (simp add: float_limit_def algebra_simps)
  moreover have "(2::int) ^ 64 \<le> 2 ^ 970"
    by (rule power_increasing) simp_all
  moreover have "(1::int) \<le> 2 ^ 54 - 1"
    by simp
  ultimately show ?thesis
    using mult_mono [of 1 "2 ^ 54 - 1" "(2::int) ^ 64" "2 ^ 970"] by simp
qed

lemma to_float_small: "\<bar>i\<bar> < 2 ^ 64 \<Longrightarrow> to_float i = Inr (real_of_int i)"
  using float_limit_bound by (simp add: to_float_def)

lemma to_float_Inr: "to_float i = Inr v \<Longrightarrow> v = real_of_int i \<and> \<bar>i\<bar> < float_limit"
  by (simp add: to_float_def split: if_splits)

lemma as_float_positive: "as_float x = Inr v \<Longrightarrow> greater_than_zero x = Inr (0 < v)"
  by (cases x) (auto dest: to_float_Inr)

lemma youtube_score_pos:
  assumes "as_float (py_get w ''views'' (PInt 0)) = Inr v" and "v > 0"
    and "as_float (py_get w ''likes'' (PInt 0)) = Inr l"
    and "as_float (py_get w ''comments'' (PInt 0)) = Inr c"
  shows "youtube_score w = Inr (v * 0.0001 + l * 0.4 + c * 0.2)"
  using assms as_float_positive [OF assms(1)]
  by (simp add: youtube_score_def result_bind_def)

lemma youtube_score_zero:
  assumes "as_float (py_get w ''views'' (PInt 0)) = Inr 0"
  shows "youtube_score w = Inr 0"
  using as_float_positive [OF assms]
  by (simp add: youtube_score_def result_bind_def Let_def)

text \<open>
  C3. For a record whose platform is \<open>YouTube\<close>, both copies of the scorer return
  \<open>views * 0.0001 + likes * 0.4 + comments * 0.2\<close> when the views are positive, and
  0 when the views are 0, whatever the likes and comments fields hold (they are not
  even required to be numbers in that case). A metric that enters the sum is a float
  or an integer that converts to a float: \<open>as_float\<close> returns its value.
\<close>

theorem youtube_score_formula:
  assumes "w ''platform'' = Some (PStr ''YouTube'')"
    and "as_float (py_get w ''views'' (PInt 0)) = Inr v"
  shows "(v > 0 \<longrightarrow> as_float (py_get w ''likes'' (PInt 0)) = Inr l
           \<longrightarrow> as_float (py_get w ''comments'' (PInt 0)) = Inr c
           \<longrightarrow> app_calculate_engagement_score w = Inr (v * 0.0001 + l * 0.4 + c * 0.2)
             \<and> sched_calculate_engagement_score w = Inr (v * 0.0001 + l * 0.4 + c * 0.2))
       \<and> (v = 0 \<longrightarrow> app_calculate_engagement_score w = Inr 0
             \<and> sched_calculate_engagement_score w = Inr 0)"
proof -
  have p: "py_get w ''platform'' (PStr '''') = PStr ''YouTube''"
    using assms(1) by (simp add: py_get_def)
  have a: "app_calculate_engagement_score w = youtube_score w"
    by (simp add: app_calculate_engagement_score_def p)
  have s: "sched_calculate_engagement_score w = youtube_score w"
    by (simp add: sched_calculate_engagement_score_def p)
  have pos: "v > 0 \<longrightarrow> as_float (py_get w ''likes'' (PInt 0)) = Inr l
           \<longrightarrow> as_float (py_get w ''comments'' (PInt 0)) = Inr c
           \<longrightarrow> youtube_score w = Inr (v * 0.0001 + l * 0.4 + c * 0.2)"
    using youtube_score_pos [OF assms(2)] by simp
  have zero: "v = 0 \<longrightarrow> youtube_score w = Inr 0"
    using youtube_score_zero assms(2) by simp
  show ?thesis using pos zero by (simp add: a s)
qed

text \<open>
  The scenario of the specification (1000 views, 50 likes, 10 comments score 22.1),
  and a record with no views, 7 likes and a comments field that is not a number.
\<close>

theorem youtube_score_formula_witness:
  "app_calculate_engagement_score video_1000 = Inr 22.1
   \<and> sched_calculate_engagement_score video_1000 = Inr 22.1
   \<and> app_calculate_engagement_score video_unseen = Inr 0
   \<and> sched_calculate_engagement_score video_unseen = Inr 0"
proof -
  have a: "app_calculate_engagement_score video_1000 = Inr 22.1
           \<and> sched_calculate_engagement_score video_1000 = Inr 22.1"
    using youtube_score_formula [of video_1000 1000 50 10]
    by (simp add: video_1000_def py_get_def to_float_small)
  have b: "app_calculate_engagement_score video_unseen = Inr 0
           \<and> sched_calculate_engagement_score video_unseen = Inr 0"
    using youtube_score_formula [of video_unseen 0 0 0]
    by (simp add: video_unseen_def py_get_def to_float_small)
  show ?thesis using a b by simp
qed

text \<open>
  Beyond the range of the theorem: a view count too large for a float makes the scorer
  raise.
\<close>

lemma youtube_score_overflow:
  "youtube_score [''views'' \<mapsto> PInt float_limit] = Inl OverflowError"
proof -
  have "0 < float_limit"
    using float_limit_bound by (rule less_le_trans [rotated]) simp
  then show ?thesis
    by (simp add: youtube_score_def result_bind_def py_get_def to_float_def)
qed

lemma trends_score_value:
  assumes "as_float (py_get w ''search_volume'' (PInt 0)) = Inr sv"
    and "as_float (py_get w ''trend_change'' (PInt 0)) = Inr tc"
    and "max 0 tc * 300 < real_of_int float_limit"
  shows "trends_score w = Inr (sv * 0.7 + max 0 tc * 300)"
proof (cases "py_get w ''trend_change'' (PInt 0)")
  case (PInt i)
  then have tc: "tc = real_of_int i"
    using assms(2) by (auto dest: to_float_Inr)
  show ?thesis
  proof (cases "0 < i")
    case True
    then have "real_of_int (i * 300) < real_of_int float_limit"
      using assms(3) tc by simp
    then have "\<bar>i * 300\<bar> < float_limit"
      using True by linarith
    then show ?thesis
      using assms(1) PInt True tc
      by (simp add: trends_score_def result_bind_def to_float_def)
  next
    case False
    have "0 < float_limit"
      using float_limit_bound by (rule less_le_trans [rotated]) simp
    then show ?thesis
      using assms(1) PInt False tc
      by (simp add: trends_score_def result_bind_def to_float_def)
  qed
next
  case (PFloat r)
  have "0 < float_limit"
    using float_limit_bound by (rule less_le_trans [rotated]) simp
  then show ?thesis
    using assms(1,2) PFloat
    by (cases "0 < r") (simp_all add: trends_score_def result_bind_def to_float_def)
qed (use assms(2) in simp_all)

text \<open>
  C4. For a record whose platform is \<open>Google Trends\<close>, the scorer of \<open>app.py\<close>
  returns \<open>search_volume * 0.7 + max(0, trend_change) * 300\<close>; a negative trend change
  contributes nothing, and a search volume of 1000 with a trend change of -5 scores 700.
  The two metrics are floats or integers that convert to floats, and so is the
  momentum term \<open>max(0, trend_change) * 300\<close>.
\<close>

theorem trends_score_formula:
  assumes "w ''platform'' = Some (PStr ''Google Trends'')"
    and "as_float (py_get w ''search_volume'' (PInt 0)) = Inr sv"
    and "as_float (py_get w ''trend_change'' (PInt 0)) = Inr tc"
  shows "(max 0 tc * 300 < real_of_int float_limit
           \<longrightarrow> app_calculate_engagement_score w = Inr (sv * 0.7 + max 0 tc * 300))
       \<and> (tc < 0 \<longrightarrow> app_calculate_engagement_score w = Inr (sv * 0.7))
       \<and> (sv = 1000 \<and> tc = - 5 \<longrightarrow> app_calculate_engagement_score w = Inr 700)"
proof -
  have p: "py_get w ''platform'' (PStr '''') = PStr ''Google Trends''"
    using assms(1) by (simp add: py_get_def)
  have a: "app_calculate_engagement_score w = trends_score w"
    by (simp add: app_calculate_engagement_score_def p)
  have l: "0 < real_of_int float_limit"
    using float_limit_bound by simp
  have f: "max 0 tc * 300 < real_of_int float_limit
             \<Longrightarrow> trends_score w = Inr (sv * 0.7 + max 0 tc * 300)"
    by (rule trends_score_value [OF assms(2,3)])
  have n: "tc < 0 \<Longrightarrow> trends_score w = Inr (sv * 0.7)"
    using trends_score_value [OF assms(2,3)] l by (simp add: max_def)
  show ?thesis using f n by (auto simp: a)
qed

theorem trends_score_formula_witness:
  "app_calculate_engagement_score trend_declining = Inr 700"
  using trends_score_formula [of trend_declining 1000 "- 5"]
  by (simp add: trend_declining_def py_get_def to_float_small)

lemma trends_score_overflow:
  "trends_score [''search_volume'' \<mapsto> PInt float_limit] = Inl OverflowError"
  by (simp add: trends_score_def result_bind_def py_get_def to_float_def)

lemma trend_record_scores:
  "sched_calculate_engagement_score (create_workflow_from_trend td) = Inr 0"
  "\<bar>search_volume td\<bar> < 2 ^ 64 \<Longrightarrow> max 0 (trend_change td) * 300 < 2 ^ 64 \<Longrightarrow>
     app_calculate_engagement_score (create_workflow_from_trend td)
       = Inr (real_of_int (search_volume td) * 0.7 + max 0 (trend_change td) * 300)"
proof -
  show "sched_calculate_engagement_score (create_workflow_from_trend td) = Inr 0"
    by (simp add: sched_calculate_engagement_score_def create_workflow_from_trend_def py_get_def)
  assume b: "\<bar>search_volume td\<bar> < 2 ^ 64" "max 0 (trend_change td) * 300 < 2 ^ 64"
  have "real_of_int (2 ^ 64) \<le> real_of_int float_limit"
    using float_limit_bound by (simp only: of_int_le_iff)
  then have r: "max 0 (trend_change td) * 300 < real_of_int float_limit"
    using b(2) by simp
  have sv: "to_float (search_volume td) = Inr (real_of_int (search_volume td))"
    by (rule to_float_small [OF b(1)])
  have "trends_score (create_workflow_from_trend td)
          = Inr (real_of_int (search_volume td) * 0.7 + max 0 (trend_change td) * 300)"
    by (rule trends_score_value)
      (simp_all add: create_workflow_from_trend_def py_get_def sv r)
  then show "app_calculate_engagement_score (create_workflow_from_trend td)
       = Inr (real_of_int (search_volume td) * 0.7 + max 0 (trend_change td) * 300)"
    by (simp add: app_calculate_engagement_score_def create_workflow_from_trend_def py_get_def)
qed

text \<open>
  C5. The two copies of the scorer are not the same function. The trends adapter
  labels its records \<open>Google Trends\<close>; \<open>app.py\<close> scores them with the trends
  formula, \<open>scheduler.py\<close> tests for the label \<open>Google\<close> and scores them 0.
\<close>

theorem scorers_disagree_on_trends:
  "app_calculate_engagement_score (create_workflow_from_trend trend_n8n) = Inr 3700
   \<and> sched_calculate_engagement_score (create_workflow_from_trend trend_n8n) = Inr 0
   \<and> create_workflow_from_trend trend_n8n ''platform'' = Some (PStr ''Google Trends'')"
  by (simp add: trend_record_scores trend_n8n_def) (simp add: create_workflow_from_trend_def)

section \<open>Properties of the reconciler\<close>

lemmas run_defs = py_try_def py_bind_def py_return_def py_raise_def lift_def utcnow_def
  find_one_def db_call_def update_one_def insert_one_def logger_error_def getitem_def
  history_insert_one_def

lemma find_first_Some:
  "find_first P xs = Some (i, d) \<Longrightarrow> i < length xs \<and> xs ! i = d \<and> P d"
proof (induction xs arbitrary: i d)
  case Nil
  then show ?case by simp
next
  case (Cons x xs)
  then show ?case
    by (auto split: if_splits option.splits)
qed

lemma find_first_None: "find_first P xs = None \<longleftrightarrow> (\<forall>x \<in> set xs. \<not> P x)"
  by (induction xs) (auto split: option.splits)

lemma find_first_append_hit:
  "\<forall>x \<in> set xs. \<not> P x \<Longrightarrow> P d \<Longrightarrow> find_first P (xs @ [d]) = Some (length xs, d)"
  by (induction xs) auto

subsection \<open>No exception leaves \<open>save_workflow\<close>\<close>

lemma py_try_logger_returns: "fst (py_try m (\<lambda>e. logger_error (msg e)) s) = Inr ()"
  by (simp add: py_try_def logger_error_def split: prod.splits sum.splits)

lemma save_each_returns:
  assumes "\<And>w s. fst (save w s) = Inr ()"
  shows "fst (save_each save ws s) = Inr ()"
proof (induction ws arbitrary: s)
  case Nil
  show ?case by (simp add: py_return_def)
next
  case (Cons w ws)
  obtain s' where "save w s = (Inr (), s')"
    using assms [of w s] by (cases "save w s") auto
  then show ?case using Cons.IH [of s'] by (simp add: py_bind_def)
qed

lemma save_each_append:
  assumes "\<And>w s. fst (save w s) = Inr ()"
  shows "save_each save (xs @ ys) s = save_each save ys (snd (save_each save xs s))"
proof (induction xs arbitrary: s)
  case Nil
  show ?case by (simp add: py_return_def)
next
  case (Cons w xs)
  obtain s' where "save w s = (Inr (), s')"
    using assms [of w s] by (cases "save w s") auto
  then show ?case using Cons.IH [of s'] by (simp add: py_bind_def)
qed

lemma save_each_Cons:
  assumes "\<And>w s. fst (save w s) = Inr ()"
  shows "save_each save (w # ws) s = save_each save ws (snd (save w s))"
proof -
  obtain s' where "save w s = (Inr (), s')"
    using assms [of w s] by (cases "save w s") auto
  then show ?thesis by (simp add: py_bind_def)
qed

text \<open>When the body raises, the stored documents are the ones of before.\<close>

lemma app_body_raise_keeps:
  "fst (app_save_body W w s) = Inl e \<Longrightarrow>
     workflows_collection (snd (app_save_body W w s)) = workflows_collection s"
  by (auto simp: app_save_body_def run_defs Let_def
      split: sum.splits option.splits prod.splits if_splits)

lemma sched_body_raise_keeps:
  "fst (sched_save_body W w s) = Inl e \<Longrightarrow>
     workflows_collection (snd (sched_save_body W w s)) = workflows_collection s"
  by (auto simp: sched_save_body_def run_defs Let_def
      split: sum.splits option.splits prod.splits if_splits)

lemma try_raise_logged:
  assumes "fst (body s) = Inl e"
  shows "workflows_collection (snd (py_try body (\<lambda>e. logger_error (msg e)) s))
           = workflows_collection (snd (body s))
       \<and> logger (snd (py_try body (\<lambda>e. logger_error (msg e)) s))
           = logger (snd (body s)) @ [msg e]"
  using assms by (cases "body s") (auto simp: py_try_def logger_error_def)


lemma app_body_logger: "logger (snd (app_save_body W w s)) = logger s"
  by (auto simp: app_save_body_def run_defs Let_def
      split: sum.splits option.splits prod.splits if_splits)

lemma sched_body_logger: "logger (snd (sched_save_body W w s)) = logger s"
  by (auto simp: sched_save_body_def run_defs Let_def
      split: sum.splits option.splits prod.splits if_splits)

lemma app_save_returns: "fst (app_save_workflow W w s) = Inr ()"
  unfolding app_save_workflow_def by (rule py_try_logger_returns)

lemma sched_save_returns: "fst (sched_save_workflow W w s) = Inr ()"
  unfolding sched_save_workflow_def by (rule py_try_logger_returns)

lemma app_save_raise:
  assumes "fst (app_save_body W w s) = Inl e"
  shows "workflows_collection (snd (app_save_workflow W w s)) = workflows_collection s
       \<and> logger (snd (app_save_workflow W w s)) = logger s @ [Msg ''Error saving workflow: '' (Some e)]"
  using try_raise_logged [of "app_save_body W w" s e "\<lambda>e. Msg ''Error saving workflow: '' (Some e)"]
    app_body_raise_keeps [OF assms] assms
  by (simp add: app_save_workflow_def app_body_logger)

lemma sched_save_raise:
  assumes "fst (sched_save_body W w s) = Inl e"
  shows "workflows_collection (snd (sched_save_workflow W w s)) = workflows_collection s
       \<and> logger (snd (sched_save_workflow W w s)) = logger s @ [Msg ''Error saving workflow: '' (Some e)]"
  using try_raise_logged [of "sched_save_body W w" s e "\<lambda>e. Msg ''Error saving workflow: '' (Some e)"]
    sched_body_raise_keeps [OF assms] assms
  by (simp add: sched_save_workflow_def sched_body_logger)

text \<open>
  C10. \<open>save_workflow\<close> returns normally on every record, in every state and whatever
  the storage does; so does the loop over a batch, which therefore reaches every
  record: the records after \<open>w\<close> are processed from the state \<open>w\<close> left behind. When the
  body of \<open>save_workflow\<close> raises \<open>e\<close>, the stored documents are untouched and \<open>e\<close> is
  logged.
\<close>

theorem save_workflow_swallows:
  "fst (app_save_workflow W w s) = Inr ()
   \<and> fst (sched_save_workflow W w s) = Inr ()
   \<and> fst (save_each (app_save_workflow W) ws s) = Inr ()
   \<and> fst (save_each (sched_save_workflow W) ws s) = Inr ()
   \<and> save_each (app_save_workflow W) (xs @ w # ys) s
       = save_each (app_save_workflow W) ys
           (snd (app_save_workflow W w (snd (save_each (app_save_workflow W) xs s))))
   \<and> save_each (sched_save_workflow W) (xs @ w # ys) s
       = save_each (sched_save_workflow W) ys
           (snd (sched_save_workflow W w (snd (save_each (sched_save_workflow W) xs s))))
   \<and> (fst (app_save_body W w s) = Inl e \<longrightarrow>
         workflows_collection (snd (app_save_workflow W w s)) = workflows_collection s
         \<and> logger (snd (app_save_workflow W w s))
             = logger s @ [Msg ''Error saving workflow: '' (Some e)])
   \<and> (fst (sched_save_body W w s) = Inl e' \<longrightarrow>
         workflows_collection (snd (sched_save_workflow W w s)) = workflows_collection s
         \<and> logger (snd (sched_save_workflow W w s))
             = logger s @ [Msg ''Error saving workflow: '' (Some e')])"
proof -
  have a: "save_each (app_save_workflow W) (xs @ w # ys) s
       = save_each (app_save_workflow W) ys
           (snd (app_save_workflow W w (snd (save_each (app_save_workflow W) xs s))))"
    using save_each_append [of "app_save_workflow W" xs "w # ys" s, OF app_save_returns]
      save_each_Cons [of "app_save_workflow W" w ys, OF app_save_returns]
    by (simp only:)
  have b: "save_each (sched_save_workflow W) (xs @ w # ys) s
       = save_each (sched_save_workflow W) ys
           (snd (sched_save_workflow W w (snd (save_each (sched_save_workflow W) xs s))))"
    using save_each_append [of "sched_save_workflow W" xs "w # ys" s, OF sched_save_returns]
      save_each_Cons [of "sched_save_workflow W" w ys, OF sched_save_returns]
    by (simp only:)
  show ?thesis
    using a b app_save_raise [of W w s e] sched_save_raise [of W w s e']
      save_each_returns [of "app_save_workflow W", OF app_save_returns]
      save_each_returns [of "sched_save_workflow W", OF sched_save_returns]
    by (simp add: app_save_returns sched_save_returns)
qed

lemma video_score:
  "sched_calculate_engagement_score (youtube_workflow t r 1000 50 10 v) = Inr 22.1"
  "app_calculate_engagement_score (youtube_workflow t r 1000 50 10 v) = Inr 22.1"
  by (simp_all add: sched_calculate_engagement_score_def app_calculate_engagement_score_def
      youtube_workflow_def py_get_def youtube_score_def result_bind_def to_float_small)

lemma video_us_app_raises:
  "fst (app_save_body world0 video_us state0) = Inl (KeyError ''workflow'')"
  by (simp add: app_save_body_def run_defs video_us_def video_score Let_def)
    (simp add: youtube_workflow_def run_defs)

lemma video_unseen_sched_raises:
  "fst (sched_save_body world0 video_unseen state0) = Inl (KeyError ''workflow_name'')"
  by (simp add: sched_save_body_def run_defs video_unseen_def sched_calculate_engagement_score_def
      youtube_score_def result_bind_def py_get_def Let_def)

theorem save_workflow_swallows_witness:
  "workflows_collection (snd (app_save_workflow world0 video_us state0)) = []
   \<and> logger (snd (app_save_workflow world0 video_us state0))
       = [Msg ''Error saving workflow: '' (Some (KeyError ''workflow''))]
   \<and> workflows_collection (snd (sched_save_workflow world0 video_unseen state0)) = []
   \<and> logger (snd (sched_save_workflow world0 video_unseen state0))
       = [Msg ''Error saving workflow: '' (Some (KeyError ''workflow_name''))]"
  using save_workflow_swallows [of world0 video_us state0 "[]" "[]" "[]"
      "KeyError ''workflow''" "KeyError ''workflow_name''"]
    save_workflow_swallows [of world0 video_unseen state0 "[]" "[]" "[]"
      "KeyError ''workflow''" "KeyError ''workflow_name''"]
    video_us_app_raises video_unseen_sched_raises
  by (simp add: state0_def)


subsection \<open>\<open>created_at\<close> is never overwritten\<close>

lemma created_kept_refl: "created_kept ds ds"
  by (simp add: created_kept_def)

lemma created_kept_trans: "created_kept a b \<Longrightarrow> created_kept b c \<Longrightarrow> created_kept a c"
  by (auto simp: created_kept_def)

lemma created_kept_append: "created_kept ds (ds @ [d])"
  by (simp add: created_kept_def nth_append)

lemma created_kept_set_fields:
  assumes "\<And>c. i < length ds \<Longrightarrow> (ds ! i) ''created_at'' = Some c
             \<Longrightarrow> fs ''created_at'' = None \<or> fs ''created_at'' = Some c"
  shows "created_kept ds (set_fields i fs ds)"
  using assms
  by (auto simp: created_kept_def set_fields_def nth_list_update map_add_def
      split: option.splits)

lemma app_save_kept:
  "created_kept (workflows_collection s) (workflows_collection (snd (app_save_workflow W w s)))"
  apply (simp add: app_save_workflow_def app_save_body_def run_defs Let_def
      created_kept_refl created_kept_append
      split: sum.splits option.splits prod.splits if_splits)
  apply (auto simp: py_get_def dest!: find_first_Some intro!: created_kept_set_fields)
  done

lemma sched_save_kept:
  "created_kept (workflows_collection s) (workflows_collection (snd (sched_save_workflow W w s)))"
  apply (simp add: sched_save_workflow_def sched_save_body_def run_defs Let_def
      created_kept_refl created_kept_append
      split: sum.splits option.splits prod.splits if_splits)
  apply (auto simp: sched_set_fields_def intro!: created_kept_set_fields)
  done

lemma save_each_kept:
  assumes ret: "\<And>w s. fst (save w s) = Inr ()"
    and step: "\<And>w s. created_kept (workflows_collection s) (workflows_collection (snd (save w s)))"
  shows "created_kept (workflows_collection s) (workflows_collection (snd (save_each save ws s)))"
proof (induction ws arbitrary: s)
  case Nil
  show ?case by (simp add: py_return_def created_kept_refl)
next
  case (Cons w ws)
  have "save_each save (w # ws) s = save_each save ws (snd (save w s))"
    by (rule save_each_Cons [OF ret])
  then show ?case
    using created_kept_trans [OF step [of s w] Cons.IH [of "snd (save w s)"]] by simp
qed

text \<open>
  C2. A stored record that has a \<open>created_at\<close> keeps it, and its place, through any
  sequence of upserts, whatever records they carry, in both copies of \<open>save_workflow\<close>.
\<close>

theorem created_at_invariant:
  assumes "i < length (workflows_collection s)"
    and "(workflows_collection s ! i) ''created_at'' = Some c"
  shows "i < length (workflows_collection (snd (save_each (app_save_workflow W) ws s)))
       \<and> (workflows_collection (snd (save_each (app_save_workflow W) ws s)) ! i) ''created_at''
           = Some c
       \<and> i < length (workflows_collection (snd (save_each (sched_save_workflow W) ws s)))
       \<and> (workflows_collection (snd (save_each (sched_save_workflow W) ws s)) ! i) ''created_at''
           = Some c"
proof -
  have a: "created_kept (workflows_collection s)
             (workflows_collection (snd (save_each (app_save_workflow W) ws s)))"
    by (rule save_each_kept [OF app_save_returns app_save_kept])
  have b: "created_kept (workflows_collection s)
             (workflows_collection (snd (save_each (sched_save_workflow W) ws s)))"
    by (rule save_each_kept [OF sched_save_returns sched_save_kept])
  show ?thesis using a b assms unfolding created_kept_def by auto
qed

lemma saved_once_docs:
  "workflows_collection saved_once
     = [video_us(''engagement_score'' \<mapsto> PFloat 22.1, ''last_updated'' \<mapsto> PTime 100,
                 ''created_at'' \<mapsto> PTime 101)]"
  by (simp add: saved_once_def sched_save_workflow_def sched_save_body_def run_defs video_us_def
      video_score world0_def state0_def Let_def)
    (simp add: youtube_workflow_def run_defs)

theorem created_at_invariant_witness:
  "(workflows_collection (snd (save_each (app_save_workflow world0) [video_us, video_in] saved_once)) ! 0)
      ''created_at'' = Some (PTime 101)
   \<and> (workflows_collection (snd (save_each (sched_save_workflow world0) [video_us, video_in] saved_once)) ! 0)
      ''created_at'' = Some (PTime 101)"
  using created_at_invariant [of 0 saved_once "PTime 101" world0 "[video_us, video_in]"]
  by (simp add: saved_once_docs)

subsection \<open>What one upsert stores\<close>

lemma sched_save_inserts:
  assumes "sched_calculate_engagement_score w = Inr sc"
    and "w ''workflow_name'' = Some n" and "w ''platform'' = Some p" and "w ''country'' = Some c"
    and "\<not> db_down W (db_calls s)" and "\<not> db_down W (Suc (db_calls s))"
    and "\<forall>d \<in> set (workflows_collection s).
           \<not> matches [(''workflow_name'', n), (''platform'', p), (''country'', c)] d"
  shows "workflows_collection (snd (sched_save_workflow W w s))
           = workflows_collection s
             @ [w(''engagement_score'' \<mapsto> PFloat sc,
                  ''last_updated'' \<mapsto> PTime (now_at W (clock_reads s)),
                  ''created_at'' \<mapsto> PTime (now_at W (Suc (clock_reads s))))]"
    and "db_calls (snd (sched_save_workflow W w s)) = Suc (Suc (db_calls s))"
    and "clock_reads (snd (sched_save_workflow W w s)) = Suc (Suc (clock_reads s))"
proof -
  have nf: "find_first (matches [(''workflow_name'', n), (''platform'', p), (''country'', c)])
              (workflows_collection s) = None"
    using assms(7) by (simp add: find_first_None)
  show "workflows_collection (snd (sched_save_workflow W w s))
           = workflows_collection s
             @ [w(''engagement_score'' \<mapsto> PFloat sc,
                  ''last_updated'' \<mapsto> PTime (now_at W (clock_reads s)),
                  ''created_at'' \<mapsto> PTime (now_at W (Suc (clock_reads s))))]"
    using assms(1-6) nf
    by (simp add: sched_save_workflow_def sched_save_body_def run_defs Let_def)
  show "db_calls (snd (sched_save_workflow W w s)) = Suc (Suc (db_calls s))"
    using assms(1-6) nf
    by (simp add: sched_save_workflow_def sched_save_body_def run_defs Let_def)
  show "clock_reads (snd (sched_save_workflow W w s)) = Suc (Suc (clock_reads s))"
    using assms(1-6) nf
    by (simp add: sched_save_workflow_def sched_save_body_def run_defs Let_def)
qed

lemma sched_save_updates:
  assumes "sched_calculate_engagement_score w = Inr sc"
    and "w ''workflow_name'' = Some n" and "w ''platform'' = Some p" and "w ''country'' = Some c"
    and "\<not> db_down W (db_calls s)" and "\<not> db_down W (Suc (db_calls s))"
    and "find_first (matches [(''workflow_name'', n), (''platform'', p), (''country'', c)])
           (workflows_collection s) = Some (i, d)"
  shows "workflows_collection (snd (sched_save_workflow W w s))
           = (workflows_collection s)
               [i := d ++ sched_set_fields
                      (w(''engagement_score'' \<mapsto> PFloat sc,
                         ''last_updated'' \<mapsto> PTime (now_at W (clock_reads s))))
                      sc (now_at W (clock_reads s))]"
  using assms find_first_Some [OF assms(7)]
  by (simp add: sched_save_workflow_def sched_save_body_def run_defs Let_def set_fields_def)

lemma app_save_inserts:
  assumes "app_calculate_engagement_score w = Inr sc"
    and "w ''workflow'' = Some n" and "w ''platform'' = Some p" and "w ''country'' = Some c"
    and "\<not> db_down W (db_calls s)" and "\<not> db_down W (Suc (db_calls s))"
    and "\<forall>d \<in> set (workflows_collection s).
           \<not> matches [(''workflow'', n), (''platform'', p), (''country'', c)] d"
  shows "workflows_collection (snd (app_save_workflow W w s))
           = workflows_collection s
             @ [w(''engagement_score'' \<mapsto> PFloat sc,
                  ''last_updated'' \<mapsto> PTime (now_at W (clock_reads s)),
                  ''created_at'' \<mapsto> PTime (now_at W (clock_reads s)))]"
proof -
  have nf: "find_first (matches [(''workflow'', n), (''platform'', p), (''country'', c)])
              (workflows_collection s) = None"
    using assms(7) by (simp add: find_first_None)
  show ?thesis
    using assms(1-6) nf
    by (simp add: app_save_workflow_def app_save_body_def run_defs Let_def)
qed


lemma sched_set_fields_at:
  "sched_set_fields w1 sc t ''views'' = Some (py_get w1 ''views'' (PInt 0))"
  "sched_set_fields w1 sc t ''likes'' = Some (py_get w1 ''likes'' (PInt 0))"
  "sched_set_fields w1 sc t ''comments'' = Some (py_get w1 ''comments'' (PInt 0))"
  "sched_set_fields w1 sc t ''replies'' = Some (py_get w1 ''replies'' (PInt 0))"
  "sched_set_fields w1 sc t ''contributors'' = Some (py_get w1 ''contributors'' (PInt 0))"
  "sched_set_fields w1 sc t ''search_volume'' = Some (py_get w1 ''search_volume'' (PInt 0))"
  "sched_set_fields w1 sc t ''trend_change'' = Some (py_get w1 ''trend_change'' (PFloat 0))"
  "sched_set_fields w1 sc t ''like_to_view_ratio'' = Some (py_get w1 ''like_to_view_ratio'' (PFloat 0))"
  "sched_set_fields w1 sc t ''comment_to_view_ratio'' = Some (py_get w1 ''comment_to_view_ratio'' (PFloat 0))"
  "sched_set_fields w1 sc t ''engagement_score'' = Some (PFloat sc)"
  "sched_set_fields w1 sc t ''source_url'' = Some (py_get w1 ''source_url'' (PStr []))"
  "sched_set_fields w1 sc t ''last_updated'' = Some (PTime t)"
  by (simp_all add: sched_set_fields_def)

lemma sched_set_fields_other:
  "k \<notin> set sched_keys \<Longrightarrow> sched_set_fields w1 sc t k = None"
  by (simp add: sched_set_fields_def sched_keys_def)

lemma sched_defaults_other:
  "k \<notin> set sched_keys \<Longrightarrow> sched_defaults k = None"
  by (simp add: sched_defaults_def sched_keys_def)

lemma set_fields_agree_at:
  assumes "d1 = w(''engagement_score'' \<mapsto> PFloat sc, ''last_updated'' \<mapsto> PTime t, ''created_at'' \<mapsto> PTime t2)"
    and "w1 = w(''engagement_score'' \<mapsto> PFloat sc, ''last_updated'' \<mapsto> PTime t3)"
  shows
  "(d1 ++ sched_set_fields w1 sc t3) ''views'' = (sched_defaults ++ d1) ''views''"
  "(d1 ++ sched_set_fields w1 sc t3) ''likes'' = (sched_defaults ++ d1) ''likes''"
  "(d1 ++ sched_set_fields w1 sc t3) ''comments'' = (sched_defaults ++ d1) ''comments''"
  "(d1 ++ sched_set_fields w1 sc t3) ''replies'' = (sched_defaults ++ d1) ''replies''"
  "(d1 ++ sched_set_fields w1 sc t3) ''contributors'' = (sched_defaults ++ d1) ''contributors''"
  "(d1 ++ sched_set_fields w1 sc t3) ''search_volume'' = (sched_defaults ++ d1) ''search_volume''"
  "(d1 ++ sched_set_fields w1 sc t3) ''trend_change'' = (sched_defaults ++ d1) ''trend_change''"
  "(d1 ++ sched_set_fields w1 sc t3) ''like_to_view_ratio'' = (sched_defaults ++ d1) ''like_to_view_ratio''"
  "(d1 ++ sched_set_fields w1 sc t3) ''comment_to_view_ratio'' = (sched_defaults ++ d1) ''comment_to_view_ratio''"
  "(d1 ++ sched_set_fields w1 sc t3) ''engagement_score'' = (sched_defaults ++ d1) ''engagement_score''"
  "(d1 ++ sched_set_fields w1 sc t3) ''source_url'' = (sched_defaults ++ d1) ''source_url''"
  unfolding assms
  by (simp_all add: map_add_def sched_set_fields_at sched_defaults_def py_get_def
        split: option.splits)

lemma set_fields_agree_keys:
  "\<forall>k \<in> set sched_keys. k \<noteq> ''last_updated'' \<longrightarrow>
     ((w(''engagement_score'' \<mapsto> PFloat sc, ''last_updated'' \<mapsto> PTime t, ''created_at'' \<mapsto> PTime t2))
        ++ sched_set_fields (w(''engagement_score'' \<mapsto> PFloat sc, ''last_updated'' \<mapsto> PTime t3)) sc t3) k
     = (sched_defaults
        ++ (w(''engagement_score'' \<mapsto> PFloat sc, ''last_updated'' \<mapsto> PTime t, ''created_at'' \<mapsto> PTime t2))) k"
  unfolding sched_keys_def
  using set_fields_agree_at [OF refl refl, of w sc t t2 t3]
  by (simp only: list.set ball_simps simp_thms)

lemma set_fields_agree:
  assumes "k \<noteq> ''last_updated''"
  shows "((w(''engagement_score'' \<mapsto> PFloat sc, ''last_updated'' \<mapsto> PTime t, ''created_at'' \<mapsto> PTime t2))
        ++ sched_set_fields (w(''engagement_score'' \<mapsto> PFloat sc, ''last_updated'' \<mapsto> PTime t3)) sc t3) k
     = (sched_defaults
        ++ (w(''engagement_score'' \<mapsto> PFloat sc, ''last_updated'' \<mapsto> PTime t, ''created_at'' \<mapsto> PTime t2))) k"
proof (cases "k \<in> set sched_keys")
  case False
  then show ?thesis
    by (simp add: map_add_def sched_set_fields_other sched_defaults_other split: option.splits)
next
  case True
  then show ?thesis using set_fields_agree_keys assms by blast
qed

lemma set_fields_keeps_key:
  "matches [(''workflow_name'', n), (''platform'', p), (''country'', c)]
     (d ++ sched_set_fields w1 sc t)
   = matches [(''workflow_name'', n), (''platform'', p), (''country'', c)] d"
  by (simp add: matches_def sched_set_fields_def map_add_def)

lemma filter_fresh_append:
  "\<forall>x \<in> set xs. \<not> P x \<Longrightarrow> P d \<Longrightarrow> filter P (xs @ [d]) = [d]"
  by (induction xs) auto

text \<open>Two applications of \<open>save_workflow\<close> when no record of the key is stored.\<close>

lemma sched_upsert_twice_fresh:
  assumes "\<forall>j. \<not> db_down W j"
    and "w ''workflow_name'' = Some (PStr n)" and "w ''platform'' = Some (PStr p)"
    and "w ''country'' = Some (PStr c)"
    and "sched_calculate_engagement_score w = Inr sc"
    and "\<forall>d \<in> set (workflows_collection s).
           \<not> matches [(''workflow_name'', PStr n), (''platform'', PStr p), (''country'', PStr c)] d"
  shows "\<exists>d1 d2.
      filter (matches [(''workflow_name'', PStr n), (''platform'', PStr p), (''country'', PStr c)])
        (workflows_collection (snd (sched_save_workflow W w s))) = [d1]
    \<and> filter (matches [(''workflow_name'', PStr n), (''platform'', PStr p), (''country'', PStr c)])
        (workflows_collection (snd (sched_save_workflow W w (snd (sched_save_workflow W w s)))))
        = [d2]
    \<and> (\<forall>k. k \<noteq> ''last_updated'' \<longrightarrow> d2 k = (sched_defaults ++ d1) k)
    \<and> d2 ''created_at'' = d1 ''created_at''
    \<and> d2 ''engagement_score'' = d1 ''engagement_score''"
proof -
  let ?q = "[(''workflow_name'', PStr n), (''platform'', PStr p), (''country'', PStr c)]"
  let ?s1 = "snd (sched_save_workflow W w s)"
  let ?t = "now_at W (clock_reads s)"
  let ?t3 = "now_at W (clock_reads ?s1)"
  let ?d1 = "w(''engagement_score'' \<mapsto> PFloat sc, ''last_updated'' \<mapsto> PTime ?t,
               ''created_at'' \<mapsto> PTime (now_at W (Suc (clock_reads s))))"
  let ?d2 = "?d1 ++ sched_set_fields
               (w(''engagement_score'' \<mapsto> PFloat sc, ''last_updated'' \<mapsto> PTime ?t3)) sc ?t3"
  have up: "\<not> db_down W (db_calls s)" "\<not> db_down W (Suc (db_calls s))"
    "\<not> db_down W (db_calls ?s1)" "\<not> db_down W (Suc (db_calls ?s1))"
    using assms(1) by simp_all
  have s1: "workflows_collection ?s1 = workflows_collection s @ [?d1]"
    by (rule sched_save_inserts(1) [OF assms(5) assms(2-4) up(1,2) assms(6)])
  have m1: "matches ?q ?d1"
    using assms(2-4) by (simp add: matches_def)
  have hit: "find_first (matches ?q) (workflows_collection ?s1)
               = Some (length (workflows_collection s), ?d1)"
    unfolding s1
    by (rule find_first_append_hit
        [of "workflows_collection s" "matches ?q" ?d1, OF assms(6) m1])
  have s2: "workflows_collection (snd (sched_save_workflow W w ?s1))
              = workflows_collection s @ [?d2]"
    using sched_save_updates [OF assms(5) assms(2-4) up(3,4) hit] by (simp add: s1)
  have m2: "matches ?q ?d2"
    using m1 by (simp only: set_fields_keeps_key)
  have f1: "filter (matches ?q) (workflows_collection ?s1) = [?d1]"
    unfolding s1
    by (rule filter_fresh_append
        [of "workflows_collection s" "matches ?q" ?d1, OF assms(6) m1])
  have f2: "filter (matches ?q) (workflows_collection (snd (sched_save_workflow W w ?s1))) = [?d2]"
    unfolding s2
    by (rule filter_fresh_append
        [of "workflows_collection s" "matches ?q" ?d2, OF assms(6) m2])
  have agree: "\<forall>k. k \<noteq> ''last_updated'' \<longrightarrow> ?d2 k = (sched_defaults ++ ?d1) k"
    by (intro allI impI) (rule set_fields_agree)
  have ca: "?d2 ''created_at'' = ?d1 ''created_at''"
    by (simp add: sched_set_fields_def map_add_def)
  have es: "?d2 ''engagement_score'' = ?d1 ''engagement_score''"
    by (simp add: sched_set_fields_def map_add_def)
  show ?thesis
    by (rule exI [of _ ?d1], rule exI [of _ ?d2], intro conjI)
      (rule f1, rule f2, rule agree, rule ca, rule es)
qed

lemma filter_update_single:
  "i < length xs \<Longrightarrow> P (xs ! i) \<Longrightarrow> length (filter P xs) \<le> 1 \<Longrightarrow> P y
     \<Longrightarrow> filter P (xs[i := y]) = [y]"
proof (induction xs arbitrary: i)
  case Nil
  then show ?case by simp
next
  case (Cons x xs)
  show ?case
  proof (cases i)
    case 0
    then have "filter P xs = []"
      using Cons.prems by simp
    then show ?thesis using 0 Cons.prems by simp
  next
    case (Suc j)
    then have j: "j < length xs" "P (xs ! j)"
      using Cons.prems by simp_all
    then have "xs ! j \<in> set (filter P xs)"
      by simp
    then have ne: "filter P xs \<noteq> []"
      by (metis empty_iff empty_set)
    then have "\<not> P x"
      using Cons.prems(3) by (cases "filter P xs") (auto split: if_splits)
    then show ?thesis
      using Suc j Cons.prems Cons.IH [of j] by simp
  qed
qed

lemma find_first_hit:
  assumes "filter P xs \<noteq> []"
  obtains i d where "find_first P xs = Some (i, d)"
proof -
  have "find_first P xs \<noteq> None"
    using assms by (auto simp: find_first_None filter_empty_conv)
  then show ?thesis using that by (cases "find_first P xs") auto
qed

lemma sched_set_fields_same_at:
  assumes "w1 = w(''engagement_score'' \<mapsto> PFloat sc, ''last_updated'' \<mapsto> PTime t)"
    and "w3 = w(''engagement_score'' \<mapsto> PFloat sc, ''last_updated'' \<mapsto> PTime t3)"
  shows
  "sched_set_fields w3 sc t3 ''views'' = sched_set_fields w1 sc t ''views''"
  "sched_set_fields w3 sc t3 ''likes'' = sched_set_fields w1 sc t ''likes''"
  "sched_set_fields w3 sc t3 ''comments'' = sched_set_fields w1 sc t ''comments''"
  "sched_set_fields w3 sc t3 ''replies'' = sched_set_fields w1 sc t ''replies''"
  "sched_set_fields w3 sc t3 ''contributors'' = sched_set_fields w1 sc t ''contributors''"
  "sched_set_fields w3 sc t3 ''search_volume'' = sched_set_fields w1 sc t ''search_volume''"
  "sched_set_fields w3 sc t3 ''trend_change'' = sched_set_fields w1 sc t ''trend_change''"
  "sched_set_fields w3 sc t3 ''like_to_view_ratio''
     = sched_set_fields w1 sc t ''like_to_view_ratio''"
  "sched_set_fields w3 sc t3 ''comment_to_view_ratio''
     = sched_set_fields w1 sc t ''comment_to_view_ratio''"
  "sched_set_fields w3 sc t3 ''engagement_score''
     = sched_set_fields w1 sc t ''engagement_score''"
  "sched_set_fields w3 sc t3 ''source_url'' = sched_set_fields w1 sc t ''source_url''"
  unfolding assms by (simp_all add: sched_set_fields_at py_get_def)

lemma sched_set_fields_same:
  assumes "k \<noteq> ''last_updated''"
  shows "sched_set_fields (w(''engagement_score'' \<mapsto> PFloat sc, ''last_updated'' \<mapsto> PTime t3)) sc t3 k
       = sched_set_fields (w(''engagement_score'' \<mapsto> PFloat sc, ''last_updated'' \<mapsto> PTime t)) sc t k"
proof (cases "k \<in> set sched_keys")
  case False
  then show ?thesis by (simp add: sched_set_fields_other)
next
  case True
  have "\<forall>k \<in> set sched_keys. k \<noteq> ''last_updated'' \<longrightarrow>
      sched_set_fields (w(''engagement_score'' \<mapsto> PFloat sc, ''last_updated'' \<mapsto> PTime t3)) sc t3 k
       = sched_set_fields (w(''engagement_score'' \<mapsto> PFloat sc, ''last_updated'' \<mapsto> PTime t)) sc t k"
    unfolding sched_keys_def
    using sched_set_fields_same_at [OF refl refl, of w sc t3 t]
    by (simp only: list.set ball_simps simp_thms)
  then show ?thesis using True assms by blast
qed

lemma sched_set_fields_defined:
  "k \<in> set sched_keys \<Longrightarrow> sched_set_fields w1 sc t k \<noteq> None"
proof -
  have "\<forall>k \<in> set sched_keys. sched_set_fields w1 sc t k \<noteq> None"
    unfolding sched_keys_def by (simp add: sched_set_fields_at)
  then show "k \<in> set sched_keys \<Longrightarrow> sched_set_fields w1 sc t k \<noteq> None"
    by blast
qed

text \<open>The same two applications when a record of the key is already stored.\<close>

lemma sched_upsert_twice_stored:
  assumes "\<forall>j. \<not> db_down W j"
    and "w ''workflow_name'' = Some (PStr n)" and "w ''platform'' = Some (PStr p)"
    and "w ''country'' = Some (PStr c)"
    and "sched_calculate_engagement_score w = Inr sc"
    and "length (filter (matches [(''workflow_name'', PStr n), (''platform'', PStr p),
                                   (''country'', PStr c)]) (workflows_collection s)) \<le> 1"
    and "filter (matches [(''workflow_name'', PStr n), (''platform'', PStr p),
                          (''country'', PStr c)]) (workflows_collection s) \<noteq> []"
  shows "\<exists>d1 d2.
      filter (matches [(''workflow_name'', PStr n), (''platform'', PStr p), (''country'', PStr c)])
        (workflows_collection (snd (sched_save_workflow W w s))) = [d1]
    \<and> filter (matches [(''workflow_name'', PStr n), (''platform'', PStr p), (''country'', PStr c)])
        (workflows_collection (snd (sched_save_workflow W w (snd (sched_save_workflow W w s)))))
        = [d2]
    \<and> (\<forall>k. k \<noteq> ''last_updated'' \<longrightarrow> d2 k = d1 k)
    \<and> (\<forall>k. k \<noteq> ''last_updated'' \<longrightarrow> d2 k = (sched_defaults ++ d1) k)"
proof -
  let ?q = "[(''workflow_name'', PStr n), (''platform'', PStr p), (''country'', PStr c)]"
  let ?s1 = "snd (sched_save_workflow W w s)"
  let ?s2 = "snd (sched_save_workflow W w ?s1)"
  let ?t = "now_at W (clock_reads s)"
  let ?t3 = "now_at W (clock_reads ?s1)"
  let ?fs1 = "sched_set_fields
                (w(''engagement_score'' \<mapsto> PFloat sc, ''last_updated'' \<mapsto> PTime ?t)) sc ?t"
  let ?fs2 = "sched_set_fields
                (w(''engagement_score'' \<mapsto> PFloat sc, ''last_updated'' \<mapsto> PTime ?t3)) sc ?t3"
  have up: "\<not> db_down W (db_calls s)" "\<not> db_down W (Suc (db_calls s))"
    "\<not> db_down W (db_calls ?s1)" "\<not> db_down W (Suc (db_calls ?s1))"
    using assms(1) by simp_all
  obtain i d0 where hit0: "find_first (matches ?q) (workflows_collection s) = Some (i, d0)"
    using find_first_hit [OF assms(7)] by blast
  have i: "i < length (workflows_collection s)" "workflows_collection s ! i = d0"
    "matches ?q d0"
    using find_first_Some [OF hit0] by simp_all
  have s1: "workflows_collection ?s1 = (workflows_collection s)[i := d0 ++ ?fs1]"
    by (rule sched_save_updates [OF assms(5) assms(2-4) up(1,2) hit0])
  have m1: "matches ?q (d0 ++ ?fs1)"
    using i(3) by (simp only: set_fields_keeps_key)
  have f1: "filter (matches ?q) (workflows_collection ?s1) = [d0 ++ ?fs1]"
    unfolding s1
    by (rule filter_update_single [of i "workflows_collection s" "matches ?q" "d0 ++ ?fs1"])
      (use i assms(6) m1 in simp_all)
  then have "filter (matches ?q) (workflows_collection ?s1) \<noteq> []"
    by simp
  then obtain i' d' where
    hit1: "find_first (matches ?q) (workflows_collection ?s1) = Some (i', d')"
    using find_first_hit [of "matches ?q" "workflows_collection ?s1"] by blast
  have i': "i' < length (workflows_collection ?s1)" "workflows_collection ?s1 ! i' = d'"
    "matches ?q d'"
    using find_first_Some [OF hit1] by simp_all
  then have "d' \<in> set (filter (matches ?q) (workflows_collection ?s1))"
    using nth_mem [of i' "workflows_collection ?s1"] by simp
  then have d': "d' = d0 ++ ?fs1"
    unfolding f1 by simp
  have s2: "workflows_collection ?s2 = (workflows_collection ?s1)[i' := (d0 ++ ?fs1) ++ ?fs2]"
    using sched_save_updates [OF assms(5) assms(2-4) up(3,4) hit1] by (simp only: d')
  have m2: "matches ?q ((d0 ++ ?fs1) ++ ?fs2)"
    using m1 by (simp only: set_fields_keeps_key)
  have f2: "filter (matches ?q) (workflows_collection ?s2) = [(d0 ++ ?fs1) ++ ?fs2]"
    unfolding s2
    by (rule filter_update_single
        [of i' "workflows_collection ?s1" "matches ?q" "(d0 ++ ?fs1) ++ ?fs2"])
      (use i' f1 m2 in simp_all)
  have same: "((d0 ++ ?fs1) ++ ?fs2) k = (d0 ++ ?fs1) k" if "k \<noteq> ''last_updated''" for k
    using sched_set_fields_same [OF that, of w sc ?t3 ?t]
    by (simp add: map_add_def split: option.splits)
  have dflt: "((d0 ++ ?fs1) ++ ?fs2) k = (sched_defaults ++ (d0 ++ ?fs1)) k"
    if "k \<noteq> ''last_updated''" for k
  proof (cases "(d0 ++ ?fs1) k")
    case None
    then have "?fs1 k = None"
      by (simp add: map_add_def split: option.splits)
    then have "k \<notin> set sched_keys"
      using sched_set_fields_defined by blast
    then have "sched_defaults k = None"
      by (rule sched_defaults_other)
    then show ?thesis
      using same [OF that] None by (simp add: map_add_def)
  next
    case (Some v)
    then show ?thesis
      using same [OF that] by (simp add: map_add_def)
  qed
  have a: "\<forall>k. k \<noteq> ''last_updated'' \<longrightarrow> ((d0 ++ ?fs1) ++ ?fs2) k = (d0 ++ ?fs1) k"
    using same by blast
  have b: "\<forall>k. k \<noteq> ''last_updated'' \<longrightarrow>
             ((d0 ++ ?fs1) ++ ?fs2) k = (sched_defaults ++ (d0 ++ ?fs1)) k"
    using dflt by blast
  show ?thesis
    by (rule exI [of _ "d0 ++ ?fs1"], rule exI [of _ "(d0 ++ ?fs1) ++ ?fs2"], intro conjI)
      (rule f1, rule f2, rule a, rule b)
qed

text \<open>
  C1, as amended. In \<open>scheduler.py\<close>, for a raw record that carries its three key fields
  as strings and scores without error, with the storage available and at most one
  stored record of that key: after one and after two applications of \<open>save_workflow\<close>
  exactly one stored record has the key. When the key was stored before, the record
  after the second application is the one after the first, \<open>last_updated\<close> apart. When
  the first application inserted the record, the second leaves every field of it as
  it was, \<open>last_updated\<close> apart, and gives each field of its \<open>$set\<close> that the record did
  not have the default value.
\<close>

theorem sched_upsert_twice:
  assumes "\<forall>j. \<not> db_down W j"
    and "w ''workflow_name'' = Some (PStr n)" and "w ''platform'' = Some (PStr p)"
    and "w ''country'' = Some (PStr c)"
    and "sched_calculate_engagement_score w = Inr sc"
    and "length (filter (matches [(''workflow_name'', PStr n), (''platform'', PStr p),
                                   (''country'', PStr c)]) (workflows_collection s)) \<le> 1"
  shows "\<exists>d1 d2.
      filter (matches [(''workflow_name'', PStr n), (''platform'', PStr p), (''country'', PStr c)])
        (workflows_collection (snd (sched_save_workflow W w s))) = [d1]
    \<and> filter (matches [(''workflow_name'', PStr n), (''platform'', PStr p), (''country'', PStr c)])
        (workflows_collection (snd (sched_save_workflow W w (snd (sched_save_workflow W w s)))))
        = [d2]
    \<and> (filter (matches [(''workflow_name'', PStr n), (''platform'', PStr p),
                          (''country'', PStr c)]) (workflows_collection s) \<noteq> []
         \<longrightarrow> (\<forall>k. k \<noteq> ''last_updated'' \<longrightarrow> d2 k = d1 k))
    \<and> (\<forall>k. k \<noteq> ''last_updated'' \<longrightarrow> d2 k = (sched_defaults ++ d1) k)
    \<and> d2 ''created_at'' = d1 ''created_at''
    \<and> d2 ''engagement_score'' = d1 ''engagement_score''"
proof (cases "filter (matches [(''workflow_name'', PStr n), (''platform'', PStr p),
                               (''country'', PStr c)]) (workflows_collection s) = []")
  case True
  then have fresh: "\<forall>d \<in> set (workflows_collection s).
           \<not> matches [(''workflow_name'', PStr n), (''platform'', PStr p), (''country'', PStr c)] d"
    by (simp add: filter_empty_conv)
  show ?thesis
    using sched_upsert_twice_fresh [OF assms(1-5) fresh] True by blast
next
  case False
  let ?q = "[(''workflow_name'', PStr n), (''platform'', PStr p), (''country'', PStr c)]"
  from sched_upsert_twice_stored [OF assms False]
  obtain d1 d2 where
    f1: "filter (matches ?q) (workflows_collection (snd (sched_save_workflow W w s))) = [d1]"
    and f2: "filter (matches ?q)
        (workflows_collection (snd (sched_save_workflow W w (snd (sched_save_workflow W w s)))))
        = [d2]"
    and same: "\<forall>k. k \<noteq> ''last_updated'' \<longrightarrow> d2 k = d1 k"
    and dflt: "\<forall>k. k \<noteq> ''last_updated'' \<longrightarrow> d2 k = (sched_defaults ++ d1) k"
    by blast
  have ca: "d2 ''created_at'' = d1 ''created_at''"
    using same by simp
  have es: "d2 ''engagement_score'' = d1 ''engagement_score''"
    using same by simp
  have st: "filter (matches ?q) (workflows_collection s) \<noteq> []
              \<longrightarrow> (\<forall>k. k \<noteq> ''last_updated'' \<longrightarrow> d2 k = d1 k)"
    using same by simp
  show ?thesis
    by (rule exI [of _ d1], rule exI [of _ d2], intro conjI)
      (rule f1, rule f2, rule st, rule dflt, rule ca, rule es)
qed

lemma saved_once_state:
  "saved_once =
     \<lparr>workflows_collection =
        [video_us(''engagement_score'' \<mapsto> PFloat 22.1, ''last_updated'' \<mapsto> PTime 100,
                  ''created_at'' \<mapsto> PTime 101)],
      collection_history = [], logger = [], clock_reads = 2, db_calls = 2\<rparr>"
  by (simp add: saved_once_def sched_save_workflow_def sched_save_body_def run_defs video_us_def
      video_score world0_def state0_def Let_def)
    (simp add: youtube_workflow_def run_defs)

lemma saved_twice_docs:
  "workflows_collection saved_twice
     = [(video_us(''engagement_score'' \<mapsto> PFloat 22.1, ''last_updated'' \<mapsto> PTime 100,
                  ''created_at'' \<mapsto> PTime 101))
        ++ sched_set_fields
             (video_us(''engagement_score'' \<mapsto> PFloat 22.1, ''last_updated'' \<mapsto> PTime 102))
             22.1 102]"
proof -
  have hit: "find_first
      (matches [(''workflow_name'', PStr ''n8n tutorial''), (''platform'', PStr ''YouTube''),
                (''country'', PStr ''US'')])
      (workflows_collection saved_once)
    = Some (0, video_us(''engagement_score'' \<mapsto> PFloat 22.1, ''last_updated'' \<mapsto> PTime 100,
                  ''created_at'' \<mapsto> PTime 101))"
    by (simp add: saved_once_state matches_def video_us_def youtube_workflow_def)
  have "workflows_collection (snd (sched_save_workflow world0 video_us saved_once))
     = (workflows_collection saved_once)
         [0 := (video_us(''engagement_score'' \<mapsto> PFloat 22.1, ''last_updated'' \<mapsto> PTime 100,
                  ''created_at'' \<mapsto> PTime 101))
        ++ sched_set_fields
             (video_us(''engagement_score'' \<mapsto> PFloat 22.1,
                ''last_updated'' \<mapsto> PTime (now_at world0 (clock_reads saved_once))))
             22.1 (now_at world0 (clock_reads saved_once))]"
    by (rule sched_save_updates [where n = "PStr ''n8n tutorial''" and p = "PStr ''YouTube''"
          and c = "PStr ''US''", OF _ _ _ _ _ _ hit])
      (simp_all add: video_us_def video_score world0_def, simp_all add: youtube_workflow_def)
  then show ?thesis
    by (simp add: saved_twice_def saved_once_state world0_def)
qed

text \<open>
  C1 fails as stated. The scheduler saves the record of a video twice: after the first
  application the stored record has no \<open>replies\<close> field, after the second it has one,
  so the two stored records differ in a field other than \<open>last_updated\<close>.
\<close>

theorem upsert_twice_counterexample:
  "length (workflows_collection saved_once) = 1
   \<and> length (workflows_collection saved_twice) = 1
   \<and> (workflows_collection saved_once ! 0) ''replies'' = None
   \<and> (workflows_collection saved_twice ! 0) ''replies'' = Some (PInt 0)"
  by (simp add: saved_once_state saved_twice_docs)
    (simp add: video_us_def youtube_workflow_def sched_set_fields_def map_add_def py_get_def)

theorem sched_upsert_twice_witness:
  "length (filter (matches [(''workflow_name'', PStr ''n8n tutorial''),
                            (''platform'', PStr ''YouTube''), (''country'', PStr ''US'')])
             (workflows_collection saved_twice)) = 1
   \<and> length (filter (matches [(''workflow_name'', PStr ''n8n tutorial''),
                            (''platform'', PStr ''YouTube''), (''country'', PStr ''US'')])
             (workflows_collection
                (snd (sched_save_workflow world0 video_us
                   (snd (sched_save_workflow world0 video_us saved_once)))))) = 1"
proof -
  let ?q = "[(''workflow_name'', PStr ''n8n tutorial''), (''platform'', PStr ''YouTube''),
             (''country'', PStr ''US'')]"
  have up: "\<forall>j. \<not> db_down world0 j"
    by (simp add: world0_def)
  have keys: "video_us ''workflow_name'' = Some (PStr ''n8n tutorial'')"
    "video_us ''platform'' = Some (PStr ''YouTube'')"
    "video_us ''country'' = Some (PStr ''US'')"
    by (simp_all add: video_us_def youtube_workflow_def)
  have sc: "sched_calculate_engagement_score video_us = Inr 22.1"
    by (simp add: video_us_def video_score)
  have none: "length (filter (matches ?q) (workflows_collection state0)) \<le> 1"
    by (simp add: state0_def)
  have one: "length (filter (matches ?q) (workflows_collection saved_once)) \<le> 1"
    by (simp add: saved_once_state)
  from sched_upsert_twice [OF up keys sc none]
  obtain d2 where
    "filter (matches ?q)
       (workflows_collection (snd (sched_save_workflow world0 video_us
          (snd (sched_save_workflow world0 video_us state0))))) = [d2]"
    by blast
  then have a: "length (filter (matches ?q) (workflows_collection saved_twice)) = 1"
    by (simp add: saved_twice_def saved_once_def)
  from sched_upsert_twice [OF up keys sc one]
  obtain d3 where
    "filter (matches ?q)
       (workflows_collection (snd (sched_save_workflow world0 video_us
          (snd (sched_save_workflow world0 video_us saved_once))))) = [d3]"
    by blast
  then show ?thesis using a by simp
qed

text \<open>
  C7 fails in \<open>scheduler.py\<close>. Saving a new record reads the clock once for
  \<open>last_updated\<close> and again for \<open>created_at\<close>; with a clock that has moved on in
  between, the inserted record carries two different timestamps.
\<close>

theorem sched_insert_timestamps_differ:
  "workflows_collection state0 = []
   \<and> length (workflows_collection saved_once) = 1
   \<and> (workflows_collection saved_once ! 0) ''last_updated'' = Some (PTime 100)
   \<and> (workflows_collection saved_once ! 0) ''created_at'' = Some (PTime 101)"
  by (simp add: saved_once_state state0_def)

text \<open>
  C6 fails in \<open>app.py\<close>. Its lookup reads the key \<open>workflow\<close>, which no adapter record
  has (they carry \<open>workflow_name\<close>): saving the record of one video for two regions
  raises \<open>KeyError\<close> twice and stores nothing, where \<open>scheduler.py\<close> stores two records.
\<close>

theorem app_stores_no_collected_record:
  "workflows_collection
     (snd (app_save_workflow world0 video_in (snd (app_save_workflow world0 video_us state0)))) = []
   \<and> logger
     (snd (app_save_workflow world0 video_in (snd (app_save_workflow world0 video_us state0))))
     = [Msg ''Error saving workflow: '' (Some (KeyError ''workflow'')),
        Msg ''Error saving workflow: '' (Some (KeyError ''workflow'')) ]
   \<and> length (workflows_collection (snd (sched_save_workflow world0 video_in saved_once))) = 2
   \<and> (workflows_collection (snd (sched_save_workflow world0 video_in saved_once)) ! 0) ''country''
       = Some (PStr ''US'')
   \<and> (workflows_collection (snd (sched_save_workflow world0 video_in saved_once)) ! 1) ''country''
       = Some (PStr ''IN'')"
proof -
  have a: "app_save_workflow world0 video_us state0
      = (Inr (), state0\<lparr>logger := [Msg ''Error saving workflow: '' (Some (KeyError ''workflow''))],
                          clock_reads := 1\<rparr>)"
    by (simp add: app_save_workflow_def app_save_body_def run_defs video_us_def video_score Let_def)
      (simp add: youtube_workflow_def run_defs state0_def)
  have b: "snd (app_save_workflow world0 video_in
       (state0\<lparr>logger := [Msg ''Error saving workflow: '' (Some (KeyError ''workflow''))],
                clock_reads := 1\<rparr>))
      = state0\<lparr>logger := [Msg ''Error saving workflow: '' (Some (KeyError ''workflow'')),
                           Msg ''Error saving workflow: '' (Some (KeyError ''workflow''))],
                clock_reads := 2\<rparr>"
    by (simp add: app_save_workflow_def app_save_body_def run_defs video_in_def video_score Let_def)
      (simp add: youtube_workflow_def run_defs state0_def)
  have c: "workflows_collection (snd (sched_save_workflow world0 video_in saved_once))
      = workflows_collection saved_once
        @ [video_in(''engagement_score'' \<mapsto> PFloat 22.1, ''last_updated'' \<mapsto> PTime 102,
                    ''created_at'' \<mapsto> PTime 103)]"
    using sched_save_inserts(1) [where W = world0 and w = video_in and s = saved_once
        and n = "PStr ''n8n tutorial''" and p = "PStr ''YouTube''" and c = "PStr ''IN''"
        and sc = "22.1"]
    by (simp add: video_in_def video_score world0_def saved_once_state matches_def)
      (simp add: youtube_workflow_def video_us_def)
  have ab: "snd (app_save_workflow world0 video_in (snd (app_save_workflow world0 video_us state0)))
      = state0\<lparr>logger := [Msg ''Error saving workflow: '' (Some (KeyError ''workflow'')),
                           Msg ''Error saving workflow: '' (Some (KeyError ''workflow''))],
                clock_reads := 2\<rparr>"
    by (simp only: a snd_conv b)
  have d: "(workflows_collection saved_once ! 0) ''country'' = Some (PStr ''US'')"
    "length (workflows_collection saved_once) = 1"
    by (simp_all add: saved_once_state) (simp add: video_us_def youtube_workflow_def)
  have e: "(video_in(''engagement_score'' \<mapsto> PFloat 22.1, ''last_updated'' \<mapsto> PTime 102,
                    ''created_at'' \<mapsto> PTime 103)) ''country'' = Some (PStr ''IN'')"
    by (simp add: video_in_def youtube_workflow_def)
  show ?thesis
    unfolding ab c using d e by (simp add: state0_def nth_append)
qed

section \<open>Properties of the run log\<close>

lemma log_collection_returns: "fst (log_collection W p n st e s) = Inr ()"
  unfolding log_collection_def by (rule py_try_logger_returns)

lemma log_collection_appends:
  assumes "\<not> db_down W (db_calls s)"
  shows "collection_history (snd (log_collection W p n st e s))
           = collection_history s
             @ [\<lparr>platform = p, workflows_collected = n, status = st, error_message = e,
                 logged_at = now_at W (clock_reads s)\<rparr>]"
  using assms by (simp add: log_collection_def run_defs)

lemma log_collection_counts:
  assumes "\<forall>j. \<not> db_down W j"
  shows "length (collection_history (snd (log_collection W p n st e s)))
           = Suc (length (collection_history s))"
  using assms by (simp add: log_collection_appends)

lemma app_save_keeps_history:
  "collection_history (snd (app_save_workflow W w s)) = collection_history s"
  by (auto simp: app_save_workflow_def app_save_body_def run_defs Let_def
      split: sum.splits option.splits prod.splits if_splits)

lemma sched_save_keeps_history:
  "collection_history (snd (sched_save_workflow W w s)) = collection_history s"
  by (auto simp: sched_save_workflow_def sched_save_body_def run_defs Let_def
      split: sum.splits option.splits prod.splits if_splits)

lemma save_each_keeps_history:
  assumes ret: "\<And>w s. fst (save w s) = Inr ()"
    and step: "\<And>w s. collection_history (snd (save w s)) = collection_history s"
  shows "collection_history (snd (save_each save ws s)) = collection_history s"
proof (induction ws arbitrary: s)
  case Nil
  show ?case by (simp add: py_return_def)
next
  case (Cons w ws)
  have "save_each save (w # ws) s = save_each save ws (snd (save w s))"
    by (rule save_each_Cons [OF ret])
  then show ?case using Cons.IH [of "snd (save w s)"] step [of w s] by simp
qed

lemma app_regions_keep_history:
  "collection_history (snd (app_youtube_regions W adapter rs bound s)) = collection_history s"
proof (induction rs arbitrary: bound s)
  case Nil
  show ?case by (simp add: py_return_def)
next
  case (Cons r rs)
  show ?case
  proof (cases "adapter r")
    case (Inl e)
    then show ?thesis by (simp add: py_bind_def lift_def)
  next
    case (Inr ws)
    obtain s' where se: "save_each (app_save_workflow W) ws s = (Inr (), s')"
      using save_each_returns [of "app_save_workflow W" ws s, OF app_save_returns]
      by (cases "save_each (app_save_workflow W) ws s") simp
    have h: "collection_history s' = collection_history s"
      using save_each_keeps_history [of "app_save_workflow W" ws s,
          OF app_save_returns app_save_keeps_history] se
      by simp
    have "app_youtube_regions W adapter (r # rs) bound s
            = app_youtube_regions W adapter rs (Some ws) s'"
      using Inr se by (simp add: py_bind_def lift_def)
    then show ?thesis using h Cons.IH [of "Some ws" s'] by simp
  qed
qed

lemma sched_regions_keep_history:
  "collection_history (snd (sched_youtube_regions W adapter rs tot s)) = collection_history s"
proof (induction rs arbitrary: tot s)
  case Nil
  show ?case by (simp add: py_return_def)
next
  case (Cons r rs)
  show ?case
  proof (cases "adapter r")
    case (Inl e)
    then show ?thesis by (simp add: py_bind_def lift_def)
  next
    case (Inr ws)
    obtain s' where se: "save_each (sched_save_workflow W) ws s = (Inr (), s')"
      using save_each_returns [of "sched_save_workflow W" ws s, OF sched_save_returns]
      by (cases "save_each (sched_save_workflow W) ws s") simp
    have h: "collection_history s' = collection_history s"
      using save_each_keeps_history [of "sched_save_workflow W" ws s,
          OF sched_save_returns sched_save_keeps_history] se
      by simp
    have "sched_youtube_regions W adapter (r # rs) tot s
            = sched_youtube_regions W adapter rs (tot + int (length ws)) s'"
      using Inr se by (simp add: py_bind_def lift_def)
    then show ?thesis using h Cons.IH [of "tot + int (length ws)" s'] by simp
  qed
qed

text \<open>
  With the storage available, one platform invocation appends exactly one entry to the
  run log, in both programs and on every path.
\<close>

lemma log_collection_result:
  "log_collection W p n st e s = (Inr (), snd (log_collection W p n st e s))"
  using log_collection_returns [of W p n st e s]
  by (cases "log_collection W p n st e s") simp

lemma log_after_error_counts:
  assumes "\<forall>j. \<not> db_down W j" and "collection_history s1 = collection_history s"
  shows "length (collection_history
           (snd (py_bind (logger_error m) (\<lambda>_. log_collection W p n st e) s1)))
         = Suc (length (collection_history s))"
  using assms(2) log_collection_counts [OF assms(1)]
  by (simp add: py_bind_def logger_error_def)

lemma app_collect_logs_once:
  assumes "\<forall>j. \<not> db_down W j"
  shows "length (collection_history (snd (app_collect_youtube W adapter regions s)))
           = Suc (length (collection_history s))"
proof -
  obtain r s1 where run: "app_youtube_regions W adapter regions None s = (r, s1)"
    by (cases "app_youtube_regions W adapter regions None s")
  have h: "collection_history s1 = collection_history s"
    using app_regions_keep_history [of W adapter regions None s] run by simp
  note n = log_collection_counts [OF assms]
  note ne = log_after_error_counts [OF assms h]
  show ?thesis
  proof (cases r)
    case (Inl e)
    have "app_collect_youtube W adapter regions s
            = py_bind (logger_error (Msg ''YouTube collection error: '' (Some e)))
                (\<lambda>_. log_collection W ''YouTube'' 0 ''error'' (Some (Msg '''' (Some e)))) s1"
      using run Inl by (simp add: app_collect_youtube_def py_try_def py_bind_def)
    then show ?thesis using ne by (simp only:)
  next
    case (Inr b)
    show ?thesis
    proof (cases b)
      case None
      have "app_collect_youtube W adapter regions s
              = py_bind (logger_error (Msg ''YouTube collection error: ''
                    (Some (UnboundLocalError ''workflows''))))
                  (\<lambda>_. log_collection W ''YouTube'' 0 ''error''
                    (Some (Msg '''' (Some (UnboundLocalError ''workflows''))))) s1"
        using run Inr None
        by (simp add: app_collect_youtube_def py_try_def py_bind_def py_raise_def)
      then show ?thesis using ne by (simp only:)
    next
      case (Some ws)
      obtain s2 where
        l: "log_collection W ''YouTube'' (int (length ws)) ''success'' None s1 = (Inr (), s2)"
        using log_collection_result by blast
      have "app_collect_youtube W adapter regions s
              = log_collection W ''YouTube'' (int (length ws)) ''success'' None s1"
        using run Inr Some l
        by (simp add: app_collect_youtube_def py_try_def py_bind_def)
      then show ?thesis using n h by (simp only:)
    qed
  qed
qed

lemma sched_collect_logs_once:
  assumes "\<forall>j. \<not> db_down W j"
  shows "length (collection_history (snd (collect_youtube_data W api_key adapter s)))
           = Suc (length (collection_history s))"
proof (cases "api_key = None \<or> api_key = Some []")
  case True
  then show ?thesis
    using log_after_error_counts [OF assms refl]
    by (simp add: collect_youtube_data_def)
next
  case False
  then have unfold: "collect_youtube_data W api_key adapter
      = py_try
          (py_bind (sched_youtube_regions W adapter [''US'', ''IN''] 0) (\<lambda>total_count.
             log_collection W ''YouTube'' total_count ''success'' None))
          (\<lambda>e. py_bind (logger_error (Msg ''YouTube collection failed: '' (Some e))) (\<lambda>_.
                 log_collection W ''YouTube'' 0 ''error'' (Some (Msg [] (Some e)))))"
    unfolding collect_youtube_data_def by (simp only: if_False simp_thms list.simps)
  obtain r s1 where run: "sched_youtube_regions W adapter [''US'', ''IN''] 0 s = (r, s1)"
    by (cases "sched_youtube_regions W adapter [''US'', ''IN''] 0 s")
  have h: "collection_history s1 = collection_history s"
    using sched_regions_keep_history [of W adapter "[''US'', ''IN'']" 0 s] run by simp
  note n = log_collection_counts [OF assms]
  note ne = log_after_error_counts [OF assms h]
  show ?thesis
  proof (cases r)
    case (Inl e)
    have "collect_youtube_data W api_key adapter s
            = py_bind (logger_error (Msg ''YouTube collection failed: '' (Some e)))
                (\<lambda>_. log_collection W ''YouTube'' 0 ''error'' (Some (Msg '''' (Some e)))) s1"
      using run Inl
      by (simp add: unfold py_try_def py_bind_def del: sched_youtube_regions.simps)
    then show ?thesis using ne by (simp only:)
  next
    case (Inr tot)
    obtain s2 where
      l: "log_collection W ''YouTube'' tot ''success'' None s1 = (Inr (), s2)"
      using log_collection_result by blast
    have "collect_youtube_data W api_key adapter s
            = log_collection W ''YouTube'' tot ''success'' None s1"
      using run Inr l
      by (simp add: unfold py_try_def py_bind_def del: sched_youtube_regions.simps)
    then show ?thesis using n h by (simp only:)
  qed
qed

text \<open>What the two loops hand to \<open>log_collection\<close> when the adapter does not raise.\<close>

lemma app_regions_last:
  assumes "\<forall>r \<in> set rs. adapter r = Inr (f r)"
  shows "fst (app_youtube_regions W adapter rs bound s)
           = Inr (if rs = [] then bound else Some (f (last rs)))"
  using assms
proof (induction rs arbitrary: bound s)
  case Nil
  show ?case by (simp add: py_return_def)
next
  case (Cons r rs)
  obtain s' where se: "save_each (app_save_workflow W) (f r) s = (Inr (), s')"
    using save_each_returns [of "app_save_workflow W" "f r" s, OF app_save_returns]
    by (cases "save_each (app_save_workflow W) (f r) s") simp
  have "app_youtube_regions W adapter (r # rs) bound s
          = app_youtube_regions W adapter rs (Some (f r)) s'"
    using Cons.prems se by (simp add: py_bind_def lift_def)
  then show ?case using Cons.IH [of "Some (f r)" s'] Cons.prems by simp
qed

lemma sched_regions_total:
  assumes "\<forall>r \<in> set rs. adapter r = Inr (f r)"
  shows "fst (sched_youtube_regions W adapter rs tot s)
           = Inr (tot + (\<Sum>r\<leftarrow>rs. int (length (f r))))"
  using assms
proof (induction rs arbitrary: tot s)
  case Nil
  show ?case by (simp add: py_return_def)
next
  case (Cons r rs)
  obtain s' where se: "save_each (sched_save_workflow W) (f r) s = (Inr (), s')"
    using save_each_returns [of "sched_save_workflow W" "f r" s, OF sched_save_returns]
    by (cases "save_each (sched_save_workflow W) (f r) s") simp
  have "sched_youtube_regions W adapter (r # rs) tot s
          = sched_youtube_regions W adapter rs (tot + int (length (f r))) s'"
    using Cons.prems se by (simp add: py_bind_def lift_def)
  then show ?case using Cons.IH [of "tot + int (length (f r))" s'] Cons.prems by simp
qed

lemma app_collect_logs_last_region:
  assumes "\<forall>j. \<not> db_down W j" and "\<forall>r \<in> set regions. adapter r = Inr (f r)"
    and "regions \<noteq> []"
  shows "\<exists>t. collection_history (snd (app_collect_youtube W adapter regions s))
           = collection_history s
             @ [\<lparr>platform = ''YouTube'',
                 workflows_collected = int (length (f (last regions))),
                 status = ''success'', error_message = None, logged_at = t\<rparr>]"
proof -
  obtain r s1 where run: "app_youtube_regions W adapter regions None s = (r, s1)"
    by (cases "app_youtube_regions W adapter regions None s")
  have r: "r = Inr (Some (f (last regions)))"
    using app_regions_last [OF assms(2), of W None s] run assms(3) by simp
  have h: "collection_history s1 = collection_history s"
    using app_regions_keep_history [of W adapter regions None s] run by simp
  obtain s2 where
    l: "log_collection W ''YouTube'' (int (length (f (last regions)))) ''success'' None s1
          = (Inr (), s2)"
    using log_collection_result by blast
  have "app_collect_youtube W adapter regions s
          = log_collection W ''YouTube'' (int (length (f (last regions)))) ''success'' None s1"
    using run r l by (simp add: app_collect_youtube_def py_try_def py_bind_def)
  moreover have "\<not> db_down W (db_calls s1)"
    using assms(1) by simp
  ultimately show ?thesis
    using h by (simp add: log_collection_appends)
qed

lemma sched_collect_logs_total:
  assumes "\<forall>j. \<not> db_down W j" and "\<forall>r \<in> set [''US'', ''IN'']. adapter r = Inr (f r)"
    and "api_key = Some key" and "key \<noteq> []"
  shows "\<exists>t. collection_history (snd (collect_youtube_data W api_key adapter s))
           = collection_history s
             @ [\<lparr>platform = ''YouTube'',
                 workflows_collected = int (length (f ''US'')) + int (length (f ''IN'')),
                 status = ''success'', error_message = None, logged_at = t\<rparr>]"
proof -
  let ?n = "int (length (f ''US'')) + int (length (f ''IN''))"
  have unfold: "collect_youtube_data W api_key adapter
      = py_try
          (py_bind (sched_youtube_regions W adapter [''US'', ''IN''] 0) (\<lambda>total_count.
             log_collection W ''YouTube'' total_count ''success'' None))
          (\<lambda>e. py_bind (logger_error (Msg ''YouTube collection failed: '' (Some e))) (\<lambda>_.
                 log_collection W ''YouTube'' 0 ''error'' (Some (Msg [] (Some e)))))"
    using assms(3,4) unfolding collect_youtube_data_def by simp
  obtain r s1 where run: "sched_youtube_regions W adapter [''US'', ''IN''] 0 s = (r, s1)"
    by (cases "sched_youtube_regions W adapter [''US'', ''IN''] 0 s")
  have r: "r = Inr ?n"
    using sched_regions_total [OF assms(2), of W 0 s] run by simp
  have h: "collection_history s1 = collection_history s"
    using sched_regions_keep_history [of W adapter "[''US'', ''IN'']" 0 s] run by simp
  obtain s2 where l: "log_collection W ''YouTube'' ?n ''success'' None s1 = (Inr (), s2)"
    using log_collection_result by blast
  have "collect_youtube_data W api_key adapter s
          = log_collection W ''YouTube'' ?n ''success'' None s1"
    using run r l
    by (simp add: unfold py_try_def py_bind_def del: sched_youtube_regions.simps)
  moreover have "\<not> db_down W (db_calls s1)"
    using assms(1) by simp
  ultimately show ?thesis
    using h by (simp add: log_collection_appends)
qed

text \<open>
  C8 fails in \<open>app.py\<close>. The adapter returns two records for \<open>US\<close> and one for
  \<open>IN\<close>: the handler of \<open>app.py\<close> writes one successful entry whose count is 1, the
  size of the last region's list, where the total is 3; \<open>collect_youtube_data\<close> of
  \<open>scheduler.py\<close> writes one entry whose count is 3.
\<close>

theorem app_logs_last_region_only:
  "adapter_2_1 ''US'' = Inr [video_us, video_us_b]
   \<and> adapter_2_1 ''IN'' = Inr [video_in]
   \<and> map workflows_collected
       (collection_history (snd (app_collect_youtube world0 adapter_2_1 [''US'', ''IN''] state0)))
       = [1]
   \<and> map status
       (collection_history (snd (app_collect_youtube world0 adapter_2_1 [''US'', ''IN''] state0)))
       = [''success'']
   \<and> map workflows_collected
       (collection_history (snd (collect_youtube_data world0 (Some ''key'') adapter_2_1 state0)))
       = [3]"
proof -
  let ?f = "\<lambda>r. if r = ''US'' then [video_us, video_us_b] else [video_in]"
  have up: "\<forall>j. \<not> db_down world0 j"
    by (simp add: world0_def)
  have ok: "\<forall>r \<in> set [''US'', ''IN'']. adapter_2_1 r = Inr (?f r)"
    by (simp add: adapter_2_1_def)
  have e: "collection_history state0 = []"
    by (simp add: state0_def)
  have a: "adapter_2_1 ''US'' = Inr [video_us, video_us_b] \<and> adapter_2_1 ''IN'' = Inr [video_in]"
    by (simp add: adapter_2_1_def)
  have b: "\<exists>t. collection_history
               (snd (app_collect_youtube world0 adapter_2_1 [''US'', ''IN''] state0))
             = [\<lparr>platform = ''YouTube'', workflows_collected = 1, status = ''success'',
                 error_message = None, logged_at = t\<rparr>]"
    using app_collect_logs_last_region [OF up ok, of state0] e by simp
  have c: "\<exists>t. collection_history
               (snd (collect_youtube_data world0 (Some ''key'') adapter_2_1 state0))
             = [\<lparr>platform = ''YouTube'', workflows_collected = 3, status = ''success'',
                 error_message = None, logged_at = t\<rparr>]"
    using sched_collect_logs_total [OF up ok, of "Some ''key''" "''key''" state0] e by simp
  show ?thesis
    using a b c by auto
qed

section \<open>Properties of the deduplication\<close>

lemma set_update_subset: "set (AList.update k v al) \<subseteq> insert (k, v) (set al)"
  by (induction al) auto

lemma keyed_update:
  assumes "keyed u" and "source_url x = k"
  shows "keyed (AList.update k x u)"
proof -
  have "distinct (map fst (AList.update k x u))"
    using assms(1) by (simp add: keyed_def distinct_update)
  moreover have "\<forall>e \<in> set (AList.update k x u). source_url (snd e) = fst e"
  proof
    fix e
    assume "e \<in> set (AList.update k x u)"
    then have "e = (k, x) \<or> e \<in> set u"
      using set_update_subset [of k x u] by blast
    then show "source_url (snd e) = fst e"
      using assms by (auto simp: keyed_def list_all_iff)
  qed
  ultimately show ?thesis
    by (auto simp: keyed_def list_all_iff)
qed

lemma keyed_values:
  assumes "keyed u"
  shows "map source_url (map snd u) = map fst u"
  using assms by (induction u) (auto simp: keyed_def)

lemma keyed_lookup:
  assumes "keyed u"
  shows "x \<in> set (map snd u) \<longleftrightarrow> map_of u (source_url x) = Some x"
  using assms by (force simp: keyed_def list_all_iff)

subsection \<open>The video adapter keeps the most viewed record of a URL\<close>

lemma youtube_unique_keyed: "keyed u \<Longrightarrow> keyed (youtube_unique xs u)"
  by (induction xs arbitrary: u) (auto simp: Let_def keyed_update split: option.splits)

lemma youtube_unique_dom:
  "dom (map_of (youtube_unique xs u)) = dom (map_of u) \<union> source_url ` set xs"
  by (induction xs arbitrary: u) (auto simp: Let_def update_conv' split: option.splits)

lemma youtube_unique_member:
  "map_of (youtube_unique xs u) k = Some v \<Longrightarrow>
     map_of u k = Some v \<or> (v \<in> set xs \<and> source_url v = k)"
proof (induction xs arbitrary: u)
  case Nil
  then show ?case by simp
next
  case (Cons x xs)
  then show ?case
    by (fastforce simp: Let_def update_conv' split: option.splits if_splits)
qed

lemma youtube_unique_max:
  "map_of (youtube_unique xs u) k = Some v \<Longrightarrow>
     (\<forall>y \<in> set xs. source_url y = k \<longrightarrow> views y \<le> views v)
     \<and> (\<forall>v0. map_of u k = Some v0 \<longrightarrow> views v0 \<le> views v)"
proof (induction xs arbitrary: u)
  case Nil
  then show ?case by simp
next
  case (Cons x xs)
  show ?case
  proof (cases "map_of u (source_url x)")
    case None
    then have "map_of (youtube_unique xs (AList.update (source_url x) x u)) k = Some v"
      using Cons.prems by (simp add: Let_def)
    from Cons.IH [OF this] None show ?thesis
      by (cases "k = source_url x") (auto simp: update_conv')
  next
    case (Some kept)
    show ?thesis
    proof (cases "views x > views kept")
      case True
      then have "map_of (youtube_unique xs (AList.update (source_url x) x u)) k = Some v"
        using Cons.prems Some by (simp add: Let_def)
      from Cons.IH [OF this] Some True show ?thesis
        by (cases "k = source_url x") (auto simp: update_conv')
    next
      case False
      then have "map_of (youtube_unique xs u) k = Some v"
        using Cons.prems Some by (simp add: Let_def)
      from Cons.IH [OF this] Some False show ?thesis
        by auto
    qed
  qed
qed

subsection \<open>The forum adapter keeps the first record of a URL\<close>

lemma forum_unique_keyed: "keyed u \<Longrightarrow> keyed (forum_unique xs u)"
  by (induction xs arbitrary: u) (auto simp: Let_def keyed_update)

lemma forum_unique_lookup:
  "map_of (forum_unique xs u) k =
     (case map_of u k of
        Some v \<Rightarrow> Some v
      | None \<Rightarrow> if k = [] then None else find (\<lambda>y. source_url y = k) xs)"
proof (induction xs arbitrary: u)
  case Nil
  show ?case by (simp split: option.splits)
next
  case (Cons x xs)
  show ?case
    using Cons.IH [of u] Cons.IH [of "AList.update (source_url x) x u"]
    by (auto simp: Let_def update_conv' split: option.splits)
qed

lemma keyed_Nil: "keyed []"
  by (simp add: keyed_def)

lemma keyed_urls:
  assumes "keyed u"
  shows "set (map source_url (map snd u)) = dom (map_of u)"
  unfolding keyed_values [OF assms] by (simp add: dom_map_of_conv_image_fst)

lemma youtube_dedup_props:
  "distinct (map source_url (youtube_dedup ws))"
  "set (map source_url (youtube_dedup ws)) = set (map source_url ws)"
  "x \<in> set (youtube_dedup ws) \<Longrightarrow> x \<in> set ws"
  "x \<in> set (youtube_dedup ws) \<Longrightarrow> y \<in> set ws \<Longrightarrow> source_url y = source_url x
     \<Longrightarrow> views y \<le> views x"
proof -
  let ?u = "youtube_unique ws []"
  have k: "keyed ?u"
    by (rule youtube_unique_keyed [OF keyed_Nil])
  show "distinct (map source_url (youtube_dedup ws))"
    unfolding youtube_dedup_def keyed_values [OF k] using k by (simp add: keyed_def)
  show "set (map source_url (youtube_dedup ws)) = set (map source_url ws)"
    unfolding youtube_dedup_def keyed_urls [OF k]
    by (simp add: youtube_unique_dom)
  assume "x \<in> set (youtube_dedup ws)"
  then have l: "map_of ?u (source_url x) = Some x"
    using keyed_lookup [OF k, of x] by (simp add: youtube_dedup_def)
  show "x \<in> set ws"
    using youtube_unique_member [OF l] by simp
  assume "y \<in> set ws" and "source_url y = source_url x"
  then show "views y \<le> views x"
    using youtube_unique_max [OF l] by blast
qed

lemma find_url_dom:
  "(\<exists>y. find (\<lambda>y. source_url y = k) ws = Some y) \<longleftrightarrow> k \<in> source_url ` set ws"
  by (induction ws) auto

lemma forum_dedup_props:
  "distinct (map source_url (forum_dedup ws))"
  "set (map source_url (forum_dedup ws)) = set (map source_url ws) - {[]}"
  "x \<in> set (forum_dedup ws) \<Longrightarrow> find (\<lambda>y. source_url y = source_url x) ws = Some x"
proof -
  let ?u = "forum_unique ws []"
  have k: "keyed ?u"
    by (rule forum_unique_keyed [OF keyed_Nil])
  have l: "map_of ?u k = (if k = [] then None else find (\<lambda>y. source_url y = k) ws)" for k
    by (simp add: forum_unique_lookup)
  show "distinct (map source_url (forum_dedup ws))"
    unfolding forum_dedup_def keyed_values [OF k] using k by (simp add: keyed_def)
  have "dom (map_of ?u) = set (map source_url ws) - {[]}"
    using find_url_dom [of _ ws] by (auto simp: dom_def l)
  then show "set (map source_url (forum_dedup ws)) = set (map source_url ws) - {[]}"
    unfolding forum_dedup_def keyed_urls [OF k] .
  assume "x \<in> set (forum_dedup ws)"
  then have "map_of ?u (source_url x) = Some x"
    using keyed_lookup [OF k, of x] by (simp add: forum_dedup_def)
  then show "find (\<lambda>y. source_url y = source_url x) ws = Some x"
    by (simp add: l split: if_splits)
qed

text \<open>
  C9 fails for the forum adapter: of two records with one URL it keeps the first,
  here the one with fewer views.
\<close>

theorem forum_dedup_counterexample:
  "source_url seen_less = source_url seen_more
   \<and> views seen_less < views seen_more
   \<and> forum_dedup [seen_less, seen_more] = [seen_less]"
  by (simp add: forum_dedup_def seen_less_def seen_more_def Let_def)

text \<open>
  C9, as amended. The deduplication of the video adapter returns one record per
  URL of its input, each a record of the input with the most views among the records
  of its URL. The deduplication of the forum adapter returns one record per non-empty
  URL of its input, each the first record of the input with its URL, and drops the
  records whose URL is empty.
\<close>

theorem dedup_by_url:
  "distinct (map source_url (youtube_dedup ws))
   \<and> set (map source_url (youtube_dedup ws)) = set (map source_url ws)
   \<and> (\<forall>x \<in> set (youtube_dedup ws). x \<in> set ws
        \<and> (\<forall>y \<in> set ws. source_url y = source_url x \<longrightarrow> views y \<le> views x))
   \<and> distinct (map source_url (forum_dedup ws))
   \<and> set (map source_url (forum_dedup ws)) = set (map source_url ws) - {[]}
   \<and> (\<forall>x \<in> set (forum_dedup ws). find (\<lambda>y. source_url y = source_url x) ws = Some x)"
  using youtube_dedup_props [where ws = ws] forum_dedup_props [where ws = ws] by blast

lemma youtube_dedup_two:
  "youtube_dedup [seen_less, seen_more] = [seen_more]"
  "youtube_dedup [seen_more, seen_less] = [seen_more]"
  by (simp_all add: youtube_dedup_def seen_less_def seen_more_def Let_def)

theorem dedup_by_url_witness:
  "youtube_dedup [seen_less, seen_more] = [seen_more]
   \<and> youtube_dedup [seen_more, seen_less] = [seen_more]
   \<and> views seen_less \<le> views seen_more
   \<and> find (\<lambda>y. source_url y = source_url seen_less) [seen_less, seen_more] = Some seen_less"
proof -
  have u: "source_url seen_less = source_url seen_more"
    by (simp add: seen_less_def seen_more_def)
  have f: "forum_dedup [seen_less, seen_more] = [seen_less]"
    by (simp add: forum_dedup_def seen_less_def seen_more_def Let_def)
  show ?thesis
    using dedup_by_url [of "[seen_less, seen_more]"] u f
    by (simp add: youtube_dedup_two)
qed

end
